theory Spec2Isabelle
  imports Main "HOL-Library.Word"
begin

section \<open>The marketplace client of haex-space/marketplace-sdk\<close>

text \<open>
  A shallow embedding of \<^verbatim>\<open>src/client.ts\<close>: the class \<^verbatim>\<open>MarketplaceClient\<close>, its
  private method \<^verbatim>\<open>request\<close> and the seven public operations built on it. Promises are
  modelled by their outcome: a rejected promise is \<open>Inl\<close> of the error, a fulfilled one
  \<open>Inr\<close> of the value. The platform functions the client calls (\<^verbatim>\<open>encodeURIComponent\<close>,
  \<^verbatim>\<open>URLSearchParams\<close>, \<^verbatim>\<open>Object.entries\<close>, \<^verbatim>\<open>String\<close>, the \<^verbatim>\<open>Error\<close>
  constructor) are written out after ECMA-262 and the WHATWG URL standard, as far as the
  client reaches them.
\<close>

subsection \<open>ECMAScript strings\<close>

text \<open>
  A string of the source is a sequence of 16-bit code units; it need not be well-formed
  UTF-16. \<open>js\<close> turns an ASCII literal into such a string.
\<close>

type_synonym code_unit = "16 word"
type_synonym jsstring = "code_unit list"

definition js :: "string \<Rightarrow> jsstring" where
  "js s = map (\<lambda>c. of_nat (of_char c)) s"

definition is_leading_surrogate :: "code_unit \<Rightarrow> bool" where
  "is_leading_surrogate c = (0xD800 \<le> c \<and> c \<le> 0xDBFF)"

definition is_trailing_surrogate :: "code_unit \<Rightarrow> bool" where
  "is_trailing_surrogate c = (0xDC00 \<le> c \<and> c \<le> 0xDFFF)"

definition UTF16SurrogatePairToCodePoint :: "code_unit \<Rightarrow> code_unit \<Rightarrow> nat" where
  "UTF16SurrogatePairToCodePoint lead trail =
     (unat lead - 0xD800) * 0x400 + (unat trail - 0xDC00) + 0x10000"

text \<open>\<^verbatim>\<open>String.prototype.isWellFormed\<close>: no surrogate stands alone.\<close>

fun isWellFormed :: "jsstring \<Rightarrow> bool" where
  "isWellFormed [] = True"
| "isWellFormed (c # rest) =
     (if is_leading_surrogate c then
        (case rest of
           [] \<Rightarrow> False
         | d # rest' \<Rightarrow> is_trailing_surrogate d \<and> isWellFormed rest')
      else \<not> is_trailing_surrogate c \<and> isWellFormed rest)"

text \<open>The UTF-8 octets of a code point.\<close>

definition utf8_octets :: "nat \<Rightarrow> 8 word list" where
  "utf8_octets cp =
     (if cp < 0x80 then [of_nat cp]
      else if cp < 0x800 then [of_nat (0xC0 + cp div 64), of_nat (0x80 + cp mod 64)]
      else if cp < 0x10000 then
        [of_nat (0xE0 + cp div 4096), of_nat (0x80 + cp div 64 mod 64),
         of_nat (0x80 + cp mod 64)]
      else
        [of_nat (0xF0 + cp div 262144), of_nat (0x80 + cp div 4096 mod 64),
         of_nat (0x80 + cp div 64 mod 64), of_nat (0x80 + cp mod 64)])"

definition hex_digits :: jsstring where
  "hex_digits = js ''0123456789ABCDEF''"

text \<open>An octet as \<^verbatim>\<open>%\<close> and two upper-case hexadecimal digits.\<close>

definition percent_encode_octet :: "8 word \<Rightarrow> jsstring" where
  "percent_encode_octet b =
     [0x25, hex_digits ! (unat b div 16), hex_digits ! (unat b mod 16)]"

subsection \<open>Numbers\<close>

text \<open>
  A number of the source is an IEEE double. The client never computes with numbers; it
  prints them (\<^verbatim>\<open>String(value)\<close>, a template literal), tests them for truthiness and
  passes them on. ECMA-262 defines \<^verbatim>\<open>Number::toString\<close> of a finite number \<open>x\<close> other
  than zero through the integers \<open>s\<close>, \<open>k\<close> and \<open>n\<close> with \<open>k\<close> as small as possible
  such that \<open>s\<close> has \<open>k\<close> decimal digits and \<open>s \<times> 10\<^bsup>n - k\<^esup>\<close> is \<open>x\<close>. The model
  gives a number by these data: \<open>Decimal negative s n\<close> is the number whose shortest
  digits are those of \<open>s\<close> and whose decimal point stands \<open>n\<close> places after the first
  digit. So \<^verbatim>\<open>404\<close> is \<open>Decimal False 404 3\<close>, \<^verbatim>\<open>1.5\<close> is \<open>Decimal False 15 1\<close> and
  \<^verbatim>\<open>1e21\<close> is \<open>Decimal False 1 22\<close>. Every double has such a representation (the type has
  more values than there are doubles, which does no harm to a statement about all of
  them). Trailing zeros of \<open>s\<close> do not change the number (\<^verbatim>\<open>200\<close> is
  \<open>Decimal False 200 3\<close> as well as \<open>Decimal False 2 3\<close>) and are dropped before
  printing.
\<close>

datatype js_number =
    NaN
  | Infinity bool
  | Zero bool
  | Decimal bool nat int

fun decimal_digits :: "nat \<Rightarrow> jsstring" where
  "decimal_digits n =
     (if n < 10 then [0x30 + of_nat n]
      else decimal_digits (n div 10) @ [0x30 + of_nat (n mod 10)])"

declare decimal_digits.simps [simp del]

fun strip_zeros :: "nat \<Rightarrow> nat" where
  "strip_zeros s = (if s \<noteq> 0 \<and> s mod 10 = 0 then strip_zeros (s div 10) else s)"

declare strip_zeros.simps [simp del]

text \<open>
  \<^verbatim>\<open>Number::toString(x, 10)\<close> of ECMA-262: plain digits for \<open>-5 \<le> n \<le> 21\<close>, the
  exponent form otherwise.
\<close>

definition Number_toString :: "js_number \<Rightarrow> jsstring" where
  "Number_toString x =
     (case x of
        NaN \<Rightarrow> js ''NaN''
      | Infinity negative \<Rightarrow> (if negative then js ''-Infinity'' else js ''Infinity'')
      | Zero negative \<Rightarrow> js ''0''
      | Decimal negative s n \<Rightarrow>
          (if strip_zeros s = 0 then js ''0''
           else
             (let ds = decimal_digits (strip_zeros s);
                  k = int (length ds)
              in (if negative then js ''-'' else [])
                 @ (if - 5 \<le> n \<and> n \<le> 21 then
                      (if n \<ge> k then ds @ replicate (nat (n - k)) 0x30
                       else if n > 0 then take (nat n) ds @ js ''.'' @ drop (nat n) ds
                       else js ''0.'' @ replicate (nat (- n)) 0x30 @ ds)
                    else
                      (let exponentSign = (if n < 0 then js ''-'' else js ''+'');
                           e = js ''e'' @ exponentSign @ decimal_digits (nat \<bar>n - 1\<bar>)
                       in if k = 1 then ds @ e
                          else take 1 ds @ js ''.'' @ drop 1 ds @ e)))))"

text \<open>\<^verbatim>\<open>ToBoolean\<close> of a number: false for \<^verbatim>\<open>NaN\<close> and the zeros.\<close>

fun Number_ToBoolean :: "js_number \<Rightarrow> bool" where
  "Number_ToBoolean NaN = False"
| "Number_ToBoolean (Infinity negative) = True"
| "Number_ToBoolean (Zero negative) = False"
| "Number_ToBoolean (Decimal negative s n) = (s \<noteq> 0)"

subsection \<open>Errors\<close>

text \<open>
  The errors a call can reject with. \<open>MarketplaceApiError\<close> is the class of the source
  (a message and \<^verbatim>\<open>statusCode\<close>); \<open>TypeError\<close> and \<open>URIError\<close> are raised by the
  language itself; \<open>Foreign\<close> stands for whatever error value the transport or the body
  decoder rejects with, passed on as it is.
\<close>

datatype js_error =
    TypeError
  | URIError
  | MarketplaceApiError (message: jsstring) (statusCode: js_number)
  | Foreign nat

subsection \<open>\<^verbatim>\<open>encodeURIComponent\<close>\<close>

text \<open>
  ECMA-262, \<^verbatim>\<open>Encode(string, extraUnescaped)\<close>: a code unit of the unescaped set is
  copied; otherwise the code point at that position is read, an unpaired surrogate
  raises \<^verbatim>\<open>URIError\<close>, and each UTF-8 octet of the code point is percent-encoded.
\<close>

definition uriUnreserved :: jsstring where
  "uriUnreserved =
     js ''ABCDEFGHIJKLMNOPQRSTUVWXYZabcdefghijklmnopqrstuvwxyz0123456789-_.!~*''
     @ [0x27] @ js ''()''"

fun Encode :: "jsstring \<Rightarrow> jsstring \<Rightarrow> js_error + jsstring" where
  "Encode [] unescapedSet = Inr []"
| "Encode (C # rest) unescapedSet =
     (if C \<in> set unescapedSet then map_sum id ((#) C) (Encode rest unescapedSet)
      else if is_trailing_surrogate C then Inl URIError
      else if is_leading_surrogate C then
        (case rest of
           [] \<Rightarrow> Inl URIError
         | second # rest' \<Rightarrow>
             if is_trailing_surrogate second then
               map_sum id
                 ((@) (concat (map percent_encode_octet
                    (utf8_octets (UTF16SurrogatePairToCodePoint C second)))))
                 (Encode rest' unescapedSet)
             else Inl URIError)
      else
        map_sum id ((@) (concat (map percent_encode_octet (utf8_octets (unat C)))))
          (Encode rest unescapedSet))"

definition encodeURIComponent :: "jsstring \<Rightarrow> js_error + jsstring" where
  "encodeURIComponent uriComponent = Encode uriComponent uriUnreserved"

subsection \<open>\<^verbatim>\<open>URLSearchParams\<close>\<close>

text \<open>
  WHATWG URL: a \<^verbatim>\<open>URLSearchParams\<close> object holds a list of name-value pairs of scalar
  value strings. \<^verbatim>\<open>append\<close> converts its arguments (an unpaired surrogate becomes
  U+FFFD) and adds the pair at the end; \<^verbatim>\<open>toString\<close> runs the
  application/x-www-form-urlencoded serializer.
\<close>

type_synonym usvstring = "nat list"
type_synonym URLSearchParams = "(usvstring \<times> usvstring) list"

fun ToUSVString :: "jsstring \<Rightarrow> usvstring" where
  "ToUSVString [] = []"
| "ToUSVString (c # rest) =
     (if is_leading_surrogate c then
        (case rest of
           [] \<Rightarrow> [0xFFFD]
         | d # rest' \<Rightarrow>
             if is_trailing_surrogate d
             then UTF16SurrogatePairToCodePoint c d # ToUSVString rest'
             else 0xFFFD # ToUSVString rest)
      else if is_trailing_surrogate c then 0xFFFD # ToUSVString rest
      else unat c # ToUSVString rest)"

definition URLSearchParams_append ::
  "URLSearchParams \<Rightarrow> jsstring \<Rightarrow> jsstring \<Rightarrow> URLSearchParams" where
  "URLSearchParams_append searchParams name val =
     searchParams @ [(ToUSVString name, ToUSVString val)]"

definition urlencoded_unescaped :: "8 word list" where
  "urlencoded_unescaped =
     map (\<lambda>c. of_nat (of_char c))
       ''ABCDEFGHIJKLMNOPQRSTUVWXYZabcdefghijklmnopqrstuvwxyz0123456789*-._''"

definition urlencoded_octet :: "8 word \<Rightarrow> jsstring" where
  "urlencoded_octet b =
     (if b = 0x20 then js ''+''
      else if b \<in> set urlencoded_unescaped then [of_nat (unat b)]
      else percent_encode_octet b)"

definition urlencoded_string :: "usvstring \<Rightarrow> jsstring" where
  "urlencoded_string s = concat (map urlencoded_octet (concat (map utf8_octets s)))"

definition URLSearchParams_toString :: "URLSearchParams \<Rightarrow> jsstring" where
  "URLSearchParams_toString searchParams =
     foldl (\<lambda>output (name, val).
              (if output \<noteq> [] then output @ js ''&'' else output)
              @ urlencoded_string name @ js ''='' @ urlencoded_string val)
       [] searchParams"

subsection \<open>JSON values\<close>

text \<open>
  What \<^verbatim>\<open>response.json()\<close> can deliver: the values of JSON. An object is the list of
  its own properties in order. The client looks at a decoded body only through the
  property \<^verbatim>\<open>error\<close>, the truthiness of that property and, when it passes the value to
  the \<^verbatim>\<open>Error\<close> constructor, its conversion to a string.
\<close>

datatype json =
    JNull
  | JBool bool
  | JNum js_number
  | JStr jsstring
  | JArr "json list"
  | JObj "(jsstring \<times> json) list"

fun ToBoolean :: "json \<Rightarrow> bool" where
  "ToBoolean JNull = False"
| "ToBoolean (JBool b) = b"
| "ToBoolean (JNum n) = Number_ToBoolean n"
| "ToBoolean (JStr s) = (s \<noteq> [])"
| "ToBoolean (JArr xs) = True"
| "ToBoolean (JObj props) = True"

text \<open>
  The member access \<^verbatim>\<open>errorData.error\<close>: reading a property of \<^verbatim>\<open>null\<close> raises
  \<^verbatim>\<open>TypeError\<close>; an object gives its own property or \<^verbatim>\<open>undefined\<close> (\<open>None\<close>); the
  other values have no property of that name.
\<close>

fun Get_error :: "json \<Rightarrow> js_error + json option" where
  "Get_error JNull = Inl TypeError"
| "Get_error (JObj props) = Inr (map_of props (js ''error''))"
| "Get_error v = Inr None"

text \<open>
  \<^verbatim>\<open>ToString\<close> of ECMA-262 on these values. An array is joined with commas, \<^verbatim>\<open>null\<close>
  elements printing as nothing; a plain object prints as \<^verbatim>\<open>[object Object]\<close>, unless an
  own property hides \<^verbatim>\<open>toString\<close>, which leaves no way to a primitive value.
\<close>

fun ToString :: "json \<Rightarrow> js_error + jsstring"
  and Array_join :: "bool \<Rightarrow> json list \<Rightarrow> js_error + jsstring" where
  "ToString JNull = Inr (js ''null'')"
| "ToString (JBool b) = Inr (if b then js ''true'' else js ''false'')"
| "ToString (JNum n) = Inr (Number_toString n)"
| "ToString (JStr s) = Inr s"
| "ToString (JArr xs) = Array_join True xs"
| "ToString (JObj props) =
     (if js ''toString'' \<in> fst ` set props then Inl TypeError
      else Inr (js ''[object Object]''))"
| "Array_join first [] = Inr []"
| "Array_join first (x # xs) =
     (case (if x = JNull then Inr [] else ToString x) of
        Inl e \<Rightarrow> Inl e
      | Inr next \<Rightarrow>
          (case Array_join False xs of
             Inl e \<Rightarrow> Inl e
           | Inr R \<Rightarrow> Inr ((if first then [] else js '','') @ next @ R)))"

text \<open>
  \<^verbatim>\<open>new MarketplaceApiError(message, statusCode)\<close>: the constructor hands the message to
  \<^verbatim>\<open>Error\<close>, which converts it to a string; when that conversion raises, the error
  raised is the one thrown in place of the API error.
\<close>

definition new_MarketplaceApiError :: "json \<Rightarrow> js_number \<Rightarrow> js_error" where
  "new_MarketplaceApiError msg code =
     (case ToString msg of Inl e \<Rightarrow> e | Inr m \<Rightarrow> MarketplaceApiError m code)"

subsection \<open>The transport and the world\<close>

text \<open>
  The transport is a capability of the caller: given a URL and the request options it
  rejects with an error or resolves to a response. A response is what the client reads of
  it: \<^verbatim>\<open>ok\<close>, \<^verbatim>\<open>status\<close> and the outcome of \<^verbatim>\<open>json()\<close>. The members of
  \<^verbatim>\<open>RequestInit\<close> other than the headers (method, signal, ...) are opaque to the client.
\<close>

typedecl init_member

record Response =
  ok :: bool
  status :: js_number
  json :: "js_error + json"

record RequestInit =
  headers :: "jsstring \<rightharpoonup> jsstring"
  members :: "init_member list"

type_synonym transport = "jsstring \<Rightarrow> RequestInit \<Rightarrow> js_error + Response"

text \<open>
  The state outside the client: the global \<^verbatim>\<open>globalThis.fetch\<close> (absent in an
  environment without one), and the log of the invocations of a transport by the client,
  in order.
\<close>

record world =
  globalThis_fetch :: "transport option"
  calls :: "(jsstring \<times> RequestInit) list"

subsection \<open>The client\<close>

record MarketplaceClientOptions =
  opt_baseUrl :: "jsstring option"
  opt_platform :: "jsstring option"
  opt_appVersion :: "jsstring option"
  opt_fetch :: "transport option"

record MarketplaceClient =
  baseUrl :: jsstring
  platform :: "jsstring option"
  appVersion :: "jsstring option"
  fetchFn :: "transport option"

definition DEFAULT_BASE_URL :: jsstring where
  "DEFAULT_BASE_URL = js ''https://marketplace.haex.space''"

text \<open>
  The constructor (lines 35 to 40). Its parameter defaults to the empty options object;
  \<^verbatim>\<open>??\<close> takes the right operand when the left one is absent.
\<close>

definition new_MarketplaceClient ::
  "MarketplaceClientOptions option \<Rightarrow> world \<Rightarrow> MarketplaceClient" where
  "new_MarketplaceClient options w =
     (let options = (case options of
                       None \<Rightarrow> \<lparr>opt_baseUrl = None, opt_platform = None,
                                 opt_appVersion = None, opt_fetch = None\<rparr>
                     | Some given \<Rightarrow> given)
      in \<lparr>baseUrl = (case opt_baseUrl options of None \<Rightarrow> DEFAULT_BASE_URL | Some b \<Rightarrow> b),
          platform = opt_platform options,
          appVersion = opt_appVersion options,
          fetchFn = (case opt_fetch options of
                       None \<Rightarrow> globalThis_fetch w
                     | Some f \<Rightarrow> Some f)\<rparr>)"

definition createMarketplaceClient ::
  "MarketplaceClientOptions option \<Rightarrow> world \<Rightarrow> MarketplaceClient" where
  "createMarketplaceClient options w = new_MarketplaceClient options w"

text \<open>
  An object of the source is given by its own properties in the order of their
  creation, each name once. \<^verbatim>\<open>Object.entries\<close> does not list them in that order
  throughout: ECMA-262 (OrdinaryOwnPropertyKeys) puts the properties whose name is an
  array index first, in ascending order of the index, and the others after them in the
  order of their creation. An array index is the canonical decimal form of an integer
  from 0 to \<open>2\<^sup>3\<^sup>2 - 2\<close>.
\<close>

definition digit_value :: "code_unit \<Rightarrow> nat option" where
  "digit_value c = (if 0x30 \<le> c \<and> c \<le> 0x39 then Some (unat c - 0x30) else None)"

fun digits_value :: "nat \<Rightarrow> jsstring \<Rightarrow> nat option" where
  "digits_value acc [] = Some acc"
| "digits_value acc (c # cs) =
     (case digit_value c of
        None \<Rightarrow> None
      | Some d \<Rightarrow> digits_value (10 * acc + d) cs)"

definition array_index :: "jsstring \<Rightarrow> nat option" where
  "array_index key =
     (case digits_value 0 key of
        None \<Rightarrow> None
      | Some i \<Rightarrow> if i \<le> 4294967294 \<and> decimal_digits i = key then Some i else None)"

fun indexed_properties :: "(jsstring \<times> 'v) list \<Rightarrow> (nat \<times> jsstring \<times> 'v) list" where
  "indexed_properties [] = []"
| "indexed_properties ((key, val) # props) =
     (case array_index key of
        None \<Rightarrow> indexed_properties props
      | Some i \<Rightarrow> (i, (key, val)) # indexed_properties props)"

definition Object_entries :: "(jsstring \<times> 'v) list \<Rightarrow> (jsstring \<times> 'v) list" where
  "Object_entries props =
     map snd (sort_key fst (indexed_properties props))
     @ filter (\<lambda>(key, val). array_index key = None) props"

text \<open>
  The options of \<^verbatim>\<open>request\<close>: the query parameters, an object whose values are
  strings, numbers or \<^verbatim>\<open>undefined\<close>; the caller's headers; and the remaining members
  of \<^verbatim>\<open>RequestInit\<close>.
\<close>

datatype param_value = PString jsstring | PNumber js_number | PUndefined

record RequestOptions =
  params :: "(jsstring \<times> param_value) list option"
  caller_headers :: "(jsstring \<rightharpoonup> jsstring) option"
  caller_members :: "init_member list"

text \<open>\<^verbatim>\<open>String(value)\<close> on a value that is not \<^verbatim>\<open>undefined\<close>.\<close>

fun String_value :: "param_value \<Rightarrow> jsstring" where
  "String_value (PString s) = s"
| "String_value (PNumber n) = Number_toString n"
| "String_value PUndefined = js ''undefined''"

text \<open>Lines 48 to 61: the URL, with the query string when there is one.\<close>

definition request_url ::
  "MarketplaceClient \<Rightarrow> jsstring \<Rightarrow> (jsstring \<times> param_value) list option \<Rightarrow> jsstring" where
  "request_url this endpoint ps =
     (let url = baseUrl this @ endpoint in
      case ps of
        None \<Rightarrow> url
      | Some obj \<Rightarrow>
          (let searchParams =
                 foldl (\<lambda>sp (key, val).
                          if val \<noteq> PUndefined
                          then URLSearchParams_append sp key (String_value val)
                          else sp)
                   [] (Object_entries obj);
               queryString = URLSearchParams_toString searchParams
           in if queryString \<noteq> [] then url @ js ''?'' @ queryString else url))"

text \<open>
  Lines 63 to 73: the headers, an object with one property for each header name, as a
  map from names to values. The object literal starts with the content type and takes
  over every header of the caller (a spread sets each property of the spread object);
  the two assignments come last.
\<close>

definition request_headers ::
  "MarketplaceClient \<Rightarrow> (jsstring \<rightharpoonup> jsstring) option \<Rightarrow> (jsstring \<rightharpoonup> jsstring)" where
  "request_headers this given =
     (let hs = [js ''Content-Type'' \<mapsto> js ''application/json'']
                 ++ (case given of None \<Rightarrow> Map.empty | Some h \<Rightarrow> h);
          hs = (case platform this of
                  None \<Rightarrow> hs
                | Some p \<Rightarrow> if p \<noteq> [] then hs(js ''X-Platform'' \<mapsto> p) else hs);
          hs = (case appVersion this of
                  None \<Rightarrow> hs
                | Some v \<Rightarrow> if v \<noteq> [] then hs(js ''X-App-Version'' \<mapsto> v) else hs)
      in hs)"

text \<open>Lines 80 to 90: what the call settles to, given the response.\<close>

definition response_result :: "Response \<Rightarrow> js_error + json" where
  "response_result response =
     (if \<not> ok response then
        (let fallback = JStr (js ''HTTP '' @ Number_toString (status response));
             errorData = (case json response of
                            Inl e \<Rightarrow> JObj [(js ''error'', fallback)]
                          | Inr v \<Rightarrow> v)
         in case Get_error errorData of
              Inl e \<Rightarrow> Inl e
            | Inr field \<Rightarrow>
                Inl (new_MarketplaceApiError
                       (case field of
                          None \<Rightarrow> fallback
                        | Some v \<Rightarrow> if ToBoolean v then v else fallback)
                       (status response)))
      else json response)"

text \<open>
  The method \<^verbatim>\<open>request\<close> (lines 42 to 91). Calling \<^verbatim>\<open>this.fetchFn\<close> when it is
  \<^verbatim>\<open>undefined\<close> raises \<^verbatim>\<open>TypeError\<close>; otherwise the invocation is logged in the world
  and its outcome decides the result.
\<close>

definition request ::
  "MarketplaceClient \<Rightarrow> jsstring \<Rightarrow> RequestOptions option \<Rightarrow> world
     \<Rightarrow> (js_error + json) \<times> world" where
  "request this endpoint options w =
     (let url = request_url this endpoint
                  (case options of None \<Rightarrow> None | Some opts \<Rightarrow> params opts);
          init = \<lparr>headers = request_headers this
                     (case options of None \<Rightarrow> None | Some opts \<Rightarrow> caller_headers opts),
                  members = (case options of None \<Rightarrow> [] | Some opts \<Rightarrow> caller_members opts)\<rparr>
      in case fetchFn this of
           None \<Rightarrow> (Inl TypeError, w)
         | Some fetch \<Rightarrow>
             (let w' = w\<lparr>calls := calls w @ [(url, init)]\<rparr> in
              case fetch url init of
                Inl e \<Rightarrow> (Inl e, w')
              | Inr response \<Rightarrow> (response_result response, w')))"

subsection \<open>The public operations\<close>

definition only_params :: "(jsstring \<times> param_value) list option \<Rightarrow> RequestOptions option" where
  "only_params ps = Some \<lparr>params = ps, caller_headers = None, caller_members = []\<rparr>"

definition listExtensions ::
  "MarketplaceClient \<Rightarrow> (jsstring \<times> param_value) list option \<Rightarrow> world
     \<Rightarrow> (js_error + json) \<times> world" where
  "listExtensions this ps w = request this (js ''/extensions'') (only_params ps) w"

definition getExtension ::
  "MarketplaceClient \<Rightarrow> jsstring \<Rightarrow> world \<Rightarrow> (js_error + json) \<times> world" where
  "getExtension this slug w =
     (case encodeURIComponent slug of
        Inl e \<Rightarrow> (Inl e, w)
      | Inr s \<Rightarrow> request this (js ''/extensions/'' @ s) None w)"

definition listCategories ::
  "MarketplaceClient \<Rightarrow> world \<Rightarrow> (js_error + json) \<times> world" where
  "listCategories this w = request this (js ''/categories'') None w"

definition getDownloadUrl ::
  "MarketplaceClient \<Rightarrow> jsstring \<Rightarrow> jsstring option \<Rightarrow> world
     \<Rightarrow> (js_error + json) \<times> world" where
  "getDownloadUrl this slug version w =
     (case encodeURIComponent slug of
        Inl e \<Rightarrow> (Inl e, w)
      | Inr s \<Rightarrow>
          request this (js ''/extensions/'' @ s @ js ''/download'')
            (only_params
               (case version of
                  None \<Rightarrow> None
                | Some v \<Rightarrow> if v \<noteq> [] then Some [(js ''version'', PString v)] else None))
            w)"

definition listVersions ::
  "MarketplaceClient \<Rightarrow> jsstring \<Rightarrow> world \<Rightarrow> (js_error + json) \<times> world" where
  "listVersions this slug w =
     (case encodeURIComponent slug of
        Inl e \<Rightarrow> (Inl e, w)
      | Inr s \<Rightarrow> request this (js ''/extensions/'' @ s @ js ''/versions'') None w)"

definition listReviews ::
  "MarketplaceClient \<Rightarrow> jsstring \<Rightarrow> (jsstring \<times> param_value) list option \<Rightarrow> world
     \<Rightarrow> (js_error + json) \<times> world" where
  "listReviews this slug ps w =
     (case encodeURIComponent slug of
        Inl e \<Rightarrow> (Inl e, w)
      | Inr s \<Rightarrow> request this (js ''/extensions/'' @ s @ js ''/reviews'') (only_params ps) w)"

definition health :: "MarketplaceClient \<Rightarrow> world \<Rightarrow> (js_error + json) \<times> world" where
  "health this w = request this (js ''/health'') None w"

subsection \<open>The public interface as a whole\<close>

text \<open>
  A call of a public operation, by name and arguments, and the slug it embeds in the
  path, if any. \<open>perform\<close> runs the method of that name.
\<close>

datatype operation =
    ListExtensions "(jsstring \<times> param_value) list option"
  | GetExtension jsstring
  | ListCategories
  | GetDownloadUrl jsstring "jsstring option"
  | ListVersions jsstring
  | ListReviews jsstring "(jsstring \<times> param_value) list option"
  | Health

fun perform :: "MarketplaceClient \<Rightarrow> operation \<Rightarrow> world \<Rightarrow> (js_error + json) \<times> world" where
  "perform this (ListExtensions ps) w = listExtensions this ps w"
| "perform this (GetExtension slug) w = getExtension this slug w"
| "perform this ListCategories w = listCategories this w"
| "perform this (GetDownloadUrl slug version) w = getDownloadUrl this slug version w"
| "perform this (ListVersions slug) w = listVersions this slug w"
| "perform this (ListReviews slug ps) w = listReviews this slug ps w"
| "perform this Health w = health this w"

fun operation_slug :: "operation \<Rightarrow> jsstring option" where
  "operation_slug (GetExtension slug) = Some slug"
| "operation_slug (GetDownloadUrl slug version) = Some slug"
| "operation_slug (ListVersions slug) = Some slug"
| "operation_slug (ListReviews slug ps) = Some slug"
| "operation_slug op = None"

text \<open>The invocations of the transport that a call added to the log.\<close>

definition new_calls :: "world \<Rightarrow> world \<Rightarrow> (jsstring \<times> RequestInit) list" where
  "new_calls w w' = drop (length (calls w)) (calls w')"

subsection \<open>The query string, as the specification words it\<close>

text \<open>
  Section 4.1, step 2, for a list of entries: each entry whose value is not
  \<^verbatim>\<open>undefined\<close>, as a URL-encoded pair \<^verbatim>\<open>key=value\<close>, in the order of the list, joined
  by \<^verbatim>\<open>&\<close>; the query string is appended after \<^verbatim>\<open>?\<close> only if it is not empty. These
  definitions are the statement that the loop and the serializer of \<open>request_url\<close> are
  compared with; the list they are applied to is the one \<^verbatim>\<open>Object.entries\<close> gives.
\<close>

fun join :: "'a list \<Rightarrow> 'a list list \<Rightarrow> 'a list" where
  "join sep [] = []"
| "join sep [x] = x"
| "join sep (x # y # ys) = x @ sep @ join sep (y # ys)"

definition spec_pair :: "jsstring \<times> param_value \<Rightarrow> jsstring" where
  "spec_pair = (\<lambda>(key, val).
     urlencoded_string (ToUSVString key) @ js ''=''
       @ urlencoded_string (ToUSVString (String_value val)))"

definition spec_query_string :: "(jsstring \<times> param_value) list \<Rightarrow> jsstring" where
  "spec_query_string entries =
     join (js ''&'') (map spec_pair (filter (\<lambda>(key, val). val \<noteq> PUndefined) entries))"

definition spec_query_suffix :: "(jsstring \<times> param_value) list option \<Rightarrow> jsstring" where
  "spec_query_suffix ps =
     (case ps of
        None \<Rightarrow> []
      | Some entries \<Rightarrow>
          if spec_query_string entries \<noteq> [] then js ''?'' @ spec_query_string entries else [])"

text \<open>The segments of a path: the pieces between its slashes.\<close>

fun split_on :: "'a \<Rightarrow> 'a list \<Rightarrow> 'a list list" where
  "split_on d [] = [[]]"
| "split_on d (x # xs) =
     (if x = d then [] # split_on d xs
      else (case split_on d xs of
              [] \<Rightarrow> [[x]]
            | s # ss \<Rightarrow> (x # s) # ss))"

definition path_segments :: "jsstring \<Rightarrow> jsstring list" where
  "path_segments path = split_on 0x2F path"

subsection \<open>Auxiliary notions of the proofs\<close>

text \<open>The alphabet of percent-encoded octets: \<^verbatim>\<open>%\<close> and the hexadecimal digits.\<close>

definition percent_alphabet :: "code_unit set" where
  "percent_alphabet = insert 0x25 (set hex_digits)"

text \<open>The body of the serializer's loop, and one pair as it prints.\<close>

definition serialize_step :: "jsstring \<Rightarrow> usvstring \<times> usvstring \<Rightarrow> jsstring" where
  "serialize_step = (\<lambda>output (name, val).
     (if output \<noteq> [] then output @ js ''&'' else output)
       @ urlencoded_string name @ js ''='' @ urlencoded_string val)"

definition serialize_pair :: "usvstring \<times> usvstring \<Rightarrow> jsstring" where
  "serialize_pair = (\<lambda>(name, val). urlencoded_string name @ js ''='' @ urlencoded_string val)"

text \<open>The body of the loop over the entries in \<open>request_url\<close>.\<close>

definition append_defined ::
  "URLSearchParams \<Rightarrow> jsstring \<times> param_value \<Rightarrow> URLSearchParams" where
  "append_defined = (\<lambda>sp (key, val).
     if val \<noteq> PUndefined then URLSearchParams_append sp key (String_value val) else sp)"

text \<open>What \<open>request\<close> hands to the transport.\<close>

definition sent_url :: "MarketplaceClient \<Rightarrow> jsstring \<Rightarrow> RequestOptions option \<Rightarrow> jsstring" where
  "sent_url this endpoint options =
     request_url this endpoint (case options of None \<Rightarrow> None | Some opts \<Rightarrow> params opts)"

definition sent_init :: "MarketplaceClient \<Rightarrow> RequestOptions option \<Rightarrow> RequestInit" where
  "sent_init this options =
     \<lparr>headers = request_headers this
                  (case options of None \<Rightarrow> None | Some opts \<Rightarrow> caller_headers opts),
      members = (case options of None \<Rightarrow> [] | Some opts \<Rightarrow> caller_members opts)\<rparr>"

subsection \<open>Notions of the statements\<close>

text \<open>A transport stub that returns the same response to every request.\<close>

definition stub :: "Response \<Rightarrow> transport" where
  "stub response = (\<lambda>url init. Inr response)"

text \<open>An environment without an ambient \<^verbatim>\<open>fetch\<close>, nothing invoked so far.\<close>

definition no_fetch :: world where
  "no_fetch = \<lparr>globalThis_fetch = None, calls = []\<rparr>"

text \<open>The slug of an operation, if it has one, is well-formed.\<close>

definition slug_well_formed :: "operation \<Rightarrow> bool" where
  "slug_well_formed op = (case operation_slug op of None \<Rightarrow> True | Some slug \<Rightarrow> isWellFormed slug)"

text \<open>The \<^verbatim>\<open>error\<close> field of a decoded body; \<open>None\<close> when there is none.\<close>

definition error_field :: "json \<Rightarrow> json option" where
  "error_field body = (case body of JObj props \<Rightarrow> map_of props (js ''error'') | _ \<Rightarrow> None)"

text \<open>The value of one header in each invocation that a call added to the log.\<close>

definition header_values :: "jsstring \<Rightarrow> world \<Rightarrow> world \<Rightarrow> jsstring option list" where
  "header_values name w w' = map (\<lambda>(url, init). headers init name) (new_calls w w')"

text \<open>
  The path of a request target: what stands before the first \<^verbatim>\<open>?\<close> or \<^verbatim>\<open>#\<close>.
\<close>

definition url_path :: "jsstring \<Rightarrow> jsstring" where
  "url_path target = takeWhile (\<lambda>c. c \<noteq> 0x3F \<and> c \<noteq> 0x23) target"

text \<open>
  The alphabet of the form-urlencoded serializer: the characters it copies, \<^verbatim>\<open>+\<close> and
  the percent-encoded octets.
\<close>

definition urlencoded_alphabet :: "code_unit set" where
  "urlencoded_alphabet =
     set (js ''ABCDEFGHIJKLMNOPQRSTUVWXYZabcdefghijklmnopqrstuvwxyz0123456789*-._'')
     \<union> {0x2B} \<union> percent_alphabet"

subsection \<open>Values of the examples\<close>

text \<open>
  The body of the specification's example for \<^verbatim>\<open>listExtensions\<close>:
  \<^verbatim>\<open>{"extensions":[],"pagination":{"page":1,"limit":20,"total":0,"totalPages":0}}\<close>.
\<close>

definition example_page :: json where
  "example_page =
     JObj [(js ''extensions'', JArr []),
           (js ''pagination'',
            JObj [(js ''page'', JNum (Decimal False 1 1)), (js ''limit'', JNum (Decimal False 20 2)),
                  (js ''total'', JNum (Zero False)),
                  (js ''totalPages'', JNum (Zero False))])]"

text \<open>
  A client of the default host with the transport \<open>t\<close>, and one that also has the
  platform \<^verbatim>\<open>linux\<close> and the application version \<^verbatim>\<open>2.0.0\<close>; both are constructed
  in the environment \<open>no_fetch\<close>.
\<close>

definition default_client :: "transport \<Rightarrow> MarketplaceClient" where
  "default_client t =
     new_MarketplaceClient
       (Some \<lparr>opt_baseUrl = None, opt_platform = None, opt_appVersion = None,
              opt_fetch = Some t\<rparr>)
       no_fetch"

definition linux_client :: "transport \<Rightarrow> MarketplaceClient" where
  "linux_client t =
     new_MarketplaceClient
       (Some \<lparr>opt_baseUrl = None, opt_platform = Some (js ''linux''),
              opt_appVersion = Some (js ''2.0.0''), opt_fetch = Some t\<rparr>)
       no_fetch"

section \<open>Properties of the platform functions\<close>

lemma uriUnreserved_ascii: "c \<in> set uriUnreserved \<Longrightarrow> c < 0x80"
  by (auto simp: uriUnreserved_def js_def)

lemma ascii_not_surrogate:
  "c < 0x80 \<Longrightarrow> \<not> is_leading_surrogate c \<and> \<not> is_trailing_surrogate c"
  for c :: code_unit
  by (simp add: is_leading_surrogate_def is_trailing_surrogate_def word_le_nat_alt word_less_nat_alt)

lemma surrogates_disjoint: "is_leading_surrogate c \<Longrightarrow> \<not> is_trailing_surrogate c"
  by (simp add: is_leading_surrogate_def is_trailing_surrogate_def word_le_nat_alt)

lemma length_hex_digits: "length hex_digits = 16"
  by (simp add: hex_digits_def js_def)

lemma percent_encode_octet_alphabet: "set (percent_encode_octet b) \<subseteq> percent_alphabet"
proof -
  have "unat b < 256" using unsigned_less [of b] by simp
  then have "unat b div 16 < length hex_digits" "unat b mod 16 < length hex_digits"
    by (simp_all add: length_hex_digits)
  then have "hex_digits ! (unat b div 16) \<in> set hex_digits"
    and "hex_digits ! (unat b mod 16) \<in> set hex_digits"
    by (simp_all only: nth_mem)
  then show ?thesis by (simp add: percent_encode_octet_def percent_alphabet_def)
qed

lemma percent_encode_octets_alphabet:
  "set (concat (map percent_encode_octet bs)) \<subseteq> percent_alphabet"
  using percent_encode_octet_alphabet by auto

lemma map_sum_id_Inr: "map_sum id f x = Inr e \<longleftrightarrow> (\<exists>e'. x = Inr e' \<and> e = f e')"
  by (cases x) auto

lemma map_sum_id_Inl: "map_sum id f x = Inl e \<longleftrightarrow> x = Inl e"
  by (cases x) auto

lemma Encode_alphabet:
  "Encode s un = Inr e \<Longrightarrow> set e \<subseteq> set un \<union> percent_alphabet"
proof (induction s un arbitrary: e rule: Encode.induct)
  case (1 un)
  then show ?case by simp
next
  case (2 C rest un)
  show ?case
  proof (cases "C \<in> set un")
    case True
    with "2.prems" obtain e' where e': "Encode rest un = Inr e'" "e = C # e'"
      by (auto simp: map_sum_id_Inr)
    with "2.IH"(1) True show ?thesis by auto
  next
    case False
    note notin = this
    show ?thesis
    proof (cases "is_leading_surrogate C")
      case True
      with notin "2.prems" obtain second rest' e' where
        r: "rest = second # rest'" "is_trailing_surrogate second" "\<not> is_trailing_surrogate C"
          "Encode rest' un = Inr e'"
          "e = concat (map percent_encode_octet
                 (utf8_octets (UTF16SurrogatePairToCodePoint C second))) @ e'"
        by (auto simp: map_sum_id_Inr split: if_splits list.splits)
      from "2.IH"(2) [OF notin r(3) True r(1) r(2) r(4)]
      have "set e' \<subseteq> set un \<union> percent_alphabet" .
      with r(5) percent_encode_octets_alphabet show ?thesis by auto
    next
      case False
      with notin "2.prems" obtain e' where
        r: "\<not> is_trailing_surrogate C" "Encode rest un = Inr e'"
          "e = concat (map percent_encode_octet (utf8_octets (unat C))) @ e'"
        by (auto simp: map_sum_id_Inr split: if_splits)
      from "2.IH"(3) [OF notin r(1) False r(2)]
      have "set e' \<subseteq> set un \<union> percent_alphabet" .
      with r(3) percent_encode_octets_alphabet show ?thesis by auto
    qed
  qed
qed

lemma Encode_error: "Encode s un = Inl err \<Longrightarrow> err = URIError"
  by (induction s un rule: Encode.induct)
     (auto simp: map_sum_id_Inl split: if_splits list.splits)

lemma Encode_wellformed:
  "\<forall>c \<in> set un. c < 0x80 \<Longrightarrow> (\<exists>e. Encode s un = Inr e) \<longleftrightarrow> isWellFormed s"
proof (induction s un rule: Encode.induct)
  case (1 un)
  then show ?case by simp
next
  case (2 C rest un)
  show ?case
  proof (cases "C \<in> set un")
    case True
    with "2.prems" have "C < 0x80" by blast
    then have "\<not> is_leading_surrogate C \<and> \<not> is_trailing_surrogate C"
      by (rule ascii_not_surrogate)
    with True "2.IH"(1) "2.prems" show ?thesis
      by (auto simp: map_sum_id_Inr)
  next
    case False
    with "2.IH"(2,3) "2.prems" show ?thesis
      by (auto simp: map_sum_id_Inr split: list.splits dest: surrogates_disjoint)
  qed
qed

lemma reserved_not_in_alphabet:
  "0x2F \<notin> set uriUnreserved \<union> percent_alphabet"
  "0x3F \<notin> set uriUnreserved \<union> percent_alphabet"
  "0x23 \<notin> set uriUnreserved \<union> percent_alphabet"
  by (simp_all add: percent_alphabet_def uriUnreserved_def hex_digits_def js_def)

lemma join_Cons: "join sep (x # xs) = x @ concat (map ((@) sep) xs)"
  by (induction xs arbitrary: x) simp_all


lemma serialize_pair_nonempty: "serialize_pair p \<noteq> []"
  by (cases p) (simp add: serialize_pair_def js_def)

lemma foldl_serialize_nonempty:
  "acc \<noteq> [] \<Longrightarrow>
   foldl serialize_step acc ps = acc @ concat (map (\<lambda>p. js ''&'' @ serialize_pair p) ps)"
proof (induction ps arbitrary: acc)
  case Nil
  then show ?case by simp
next
  case (Cons p ps)
  have step: "serialize_step acc p = acc @ js ''&'' @ serialize_pair p"
    using Cons.prems by (cases p) (simp add: serialize_step_def serialize_pair_def)
  then have "serialize_step acc p \<noteq> []" using Cons.prems by simp
  from Cons.IH [OF this] step show ?case by simp
qed

lemma URLSearchParams_toString_join:
  "URLSearchParams_toString ps = join (js ''&'') (map serialize_pair ps)"
proof (cases ps)
  case Nil
  then show ?thesis by (simp add: URLSearchParams_toString_def)
next
  case (Cons p rest)
  have fold: "URLSearchParams_toString ps = foldl serialize_step [] ps"
    by (simp add: URLSearchParams_toString_def serialize_step_def)
  have first: "serialize_step [] p = serialize_pair p"
    by (cases p) (simp add: serialize_step_def serialize_pair_def)
  have "foldl serialize_step [] ps = foldl serialize_step (serialize_pair p) rest"
    using Cons first by simp
  also have "\<dots> = serialize_pair p @ concat (map (\<lambda>q. js ''&'' @ serialize_pair q) rest)"
    by (rule foldl_serialize_nonempty [OF serialize_pair_nonempty])
  also have "\<dots> = join (js ''&'') (map serialize_pair ps)"
    using Cons by (simp add: join_Cons comp_def)
  finally show ?thesis using fold by simp
qed

lemma foldl_append_defined:
  "foldl append_defined acc entries =
     acc @ map (\<lambda>(key, val). (ToUSVString key, ToUSVString (String_value val)))
             (filter (\<lambda>(key, val). val \<noteq> PUndefined) entries)"
  by (induction entries arbitrary: acc)
     (auto simp: append_defined_def URLSearchParams_append_def)

lemma request_url_spec:
  "request_url this endpoint ps
     = baseUrl this @ endpoint @ spec_query_suffix (map_option Object_entries ps)"
proof (cases ps)
  case None
  then show ?thesis by (simp add: request_url_def spec_query_suffix_def)
next
  case (Some obj)
  let ?entries = "Object_entries obj"
  have loop: "foldl (\<lambda>sp (key, val).
                  if val \<noteq> PUndefined
                  then URLSearchParams_append sp key (String_value val)
                  else sp) [] ?entries
              = map (\<lambda>(key, val). (ToUSVString key, ToUSVString (String_value val)))
                  (filter (\<lambda>(key, val). val \<noteq> PUndefined) ?entries)"
    using foldl_append_defined [of "[]" ?entries] by (simp add: append_defined_def)
  have pairs: "map serialize_pair
                 (map (\<lambda>(key, val). (ToUSVString key, ToUSVString (String_value val))) xs)
               = map spec_pair xs" for xs
    by (induction xs) (auto simp: serialize_pair_def spec_pair_def)
  have "URLSearchParams_toString
          (map (\<lambda>(key, val). (ToUSVString key, ToUSVString (String_value val)))
             (filter (\<lambda>(key, val). val \<noteq> PUndefined) ?entries))
        = spec_query_string ?entries"
    by (simp only: URLSearchParams_toString_join pairs spec_query_string_def)
  with Some loop show ?thesis
    by (simp add: request_url_def spec_query_suffix_def Let_def)
qed

lemma spec_pair_nonempty: "spec_pair p \<noteq> []"
  by (cases p) (simp add: spec_pair_def js_def)

lemma spec_query_string_empty:
  "spec_query_string entries = [] \<longleftrightarrow> (\<forall>(key, val) \<in> set entries. val = PUndefined)"
proof -
  let ?defined = "filter (\<lambda>(key, val). val \<noteq> PUndefined) entries"
  have "spec_query_string entries = [] \<longleftrightarrow> ?defined = []"
  proof (cases ?defined)
    case Nil
    then show ?thesis by (simp add: spec_query_string_def)
  next
    case (Cons p rest)
    then show ?thesis
      using spec_pair_nonempty [of p] by (simp add: spec_query_string_def join_Cons)
  qed
  also have "\<dots> \<longleftrightarrow> (\<forall>(key, val) \<in> set entries. val = PUndefined)"
    by (auto simp: filter_empty_conv)
  finally show ?thesis .
qed

lemma replicate_numeral_Cons:
  "replicate (numeral k) x = x # replicate (pred_numeral k) x"
  by (simp add: numeral_eq_Suc)

text \<open>
  What \<^verbatim>\<open>String\<close> prints for \<^verbatim>\<open>404\<close>, \<^verbatim>\<open>-20\<close>, \<^verbatim>\<open>1.5\<close>, \<^verbatim>\<open>123.456\<close>,
  \<^verbatim>\<open>0.000001\<close>, \<^verbatim>\<open>1e-7\<close>, \<^verbatim>\<open>1e21\<close>, \<^verbatim>\<open>1.2e21\<close> and \<^verbatim>\<open>1e20\<close>.
\<close>

lemma Number_toString_examples:
  "Number_toString (Decimal False 404 3) = js ''404''"
  "Number_toString (Decimal True 20 2) = js ''-20''"
  "Number_toString (Decimal False 15 1) = js ''1.5''"
  "Number_toString (Decimal False 123456 3) = js ''123.456''"
  "Number_toString (Decimal False 1 (- 5)) = js ''0.000001''"
  "Number_toString (Decimal False 1 (- 6)) = js ''1e-7''"
  "Number_toString (Decimal False 1 22) = js ''1e+21''"
  "Number_toString (Decimal False 12 22) = js ''1.2e+21''"
  "Number_toString (Decimal False 1 21) = js ''100000000000000000000''"
  by (simp_all add: Number_toString_def strip_zeros.simps decimal_digits.simps js_def
      replicate_numeral_Cons)

text \<open>
  The order of \<^verbatim>\<open>Object.entries\<close> for the keys \<^verbatim>\<open>b\<close>, \<^verbatim>\<open>10\<close>, \<^verbatim>\<open>a\<close>, \<^verbatim>\<open>2\<close>,
  \<^verbatim>\<open>01\<close>: the array indices 2 and 10 first; \<^verbatim>\<open>01\<close> is not canonical and stays a name.
\<close>

lemma Object_entries_example:
  "map fst (Object_entries
     [(js ''b'', v1), (js ''10'', v2), (js ''a'', v3), (js ''2'', v4), (js ''01'', v5)])
   = [js ''2'', js ''10'', js ''b'', js ''a'', js ''01'']"
  by (simp add: Object_entries_def array_index_def digit_value_def decimal_digits.simps js_def)

lemma indexed_properties_no_index:
  "\<forall>(key, val) \<in> set props. array_index key = None \<Longrightarrow> indexed_properties props = []"
  by (induction props) auto

lemma Object_entries_no_index:
  assumes "\<forall>(key, val) \<in> set props. array_index key = None"
  shows "Object_entries props = props"
proof -
  have keep: "filter (\<lambda>(key, val). array_index key = None) props = props"
    using assms by (auto simp: filter_id_conv)
  show ?thesis
    by (simp add: Object_entries_def keep indexed_properties_no_index [OF assms])
qed

lemma indexed_properties_iff:
  "(i, key, val) \<in> set (indexed_properties props)
     \<longleftrightarrow> (key, val) \<in> set props \<and> array_index key = Some i"
  by (induction props) (auto split: option.splits)

lemma set_Object_entries: "set (Object_entries props) = set props"
proof (rule set_eqI)
  fix p :: "jsstring \<times> 'a"
  obtain key val where p: "p = (key, val)" by (cases p)
  have "(key, val) \<in> snd ` set (indexed_properties props)
          \<longleftrightarrow> (\<exists>i. (i, key, val) \<in> set (indexed_properties props))"
    by force
  also have "\<dots> \<longleftrightarrow> (key, val) \<in> set props \<and> array_index key \<noteq> None"
    by (auto simp: indexed_properties_iff)
  finally have "p \<in> snd ` set (indexed_properties props)
          \<longleftrightarrow> p \<in> set props \<and> array_index key \<noteq> None"
    unfolding p .
  then show "p \<in> set (Object_entries props) \<longleftrightarrow> p \<in> set props"
    unfolding p by (auto simp: Object_entries_def)
qed

lemma array_index_version: "array_index (js ''version'') = None"
  by (simp add: array_index_def digit_value_def js_def)

lemma Object_entries_version:
  "Object_entries [(js ''version'', val)] = [(js ''version'', val)]"
  by (rule Object_entries_no_index) (simp add: array_index_version)

section \<open>Properties of the request\<close>

lemma encodeURIComponent_well_formed:
  "isWellFormed s \<Longrightarrow> \<exists>e. encodeURIComponent s = Inr e"
  using Encode_wellformed [of uriUnreserved s] uriUnreserved_ascii
  by (simp add: encodeURIComponent_def)

lemma encodeURIComponent_ill_formed:
  "\<not> isWellFormed s \<Longrightarrow> encodeURIComponent s = Inl URIError"
proof -
  assume "\<not> isWellFormed s"
  then have "\<not> (\<exists>e. Encode s uriUnreserved = Inr e)"
    using Encode_wellformed [of uriUnreserved s] uriUnreserved_ascii by simp
  then obtain err where "Encode s uriUnreserved = Inl err"
    by (cases "Encode s uriUnreserved") auto
  then show ?thesis using Encode_error by (simp add: encodeURIComponent_def)
qed

lemma encodeURIComponent_no_delimiter:
  assumes "encodeURIComponent s = Inr e"
  shows "0x2F \<notin> set e" "0x3F \<notin> set e" "0x23 \<notin> set e"
  using Encode_alphabet [of s uriUnreserved e] assms reserved_not_in_alphabet
  by (auto simp: encodeURIComponent_def)

lemma request_no_transport:
  "fetchFn this = None \<Longrightarrow> request this endpoint options w = (Inl TypeError, w)"
  by (simp add: request_def)

lemma request_transport:
  "fetchFn this = Some t \<Longrightarrow>
   request this endpoint options w =
     ((case t (sent_url this endpoint options) (sent_init this options) of
         Inl e \<Rightarrow> Inl e
       | Inr response \<Rightarrow> response_result response),
      w\<lparr>calls := calls w @ [(sent_url this endpoint options, sent_init this options)]\<rparr>)"
  by (simp add: request_def sent_url_def sent_init_def Let_def split: sum.splits)

lemma new_calls_append [simp]: "new_calls w (w\<lparr>calls := calls w @ xs\<rparr>) = xs"
  by (simp add: new_calls_def)

lemma new_calls_same [simp]: "new_calls w w = []"
  by (simp add: new_calls_def)

lemma request_new_calls:
  "new_calls w (snd (request this endpoint options w)) =
     (case fetchFn this of
        None \<Rightarrow> []
      | Some t \<Rightarrow> [(sent_url this endpoint options, sent_init this options)])"
  by (cases "fetchFn this") (simp_all add: request_no_transport request_transport)


lemma request_None_options:
  "request this endpoint None w = request this endpoint (only_params None) w"
  by (simp add: request_def only_params_def)

lemma perform_ill_formed:
  "\<not> slug_well_formed op \<Longrightarrow> perform this op w = (Inl URIError, w)"
  by (cases op)
     (auto simp: slug_well_formed_def getExtension_def getDownloadUrl_def listVersions_def
        listReviews_def encodeURIComponent_ill_formed)

lemma perform_request:
  "slug_well_formed op \<Longrightarrow>
   \<exists>endpoint ps. \<forall>w. perform this op w = request this endpoint (only_params ps) w"
proof (cases op)
  case (ListExtensions ps)
  then show ?thesis by (auto simp: listExtensions_def)
next
  case (GetExtension slug)
  moreover assume "slug_well_formed op"
  ultimately obtain e where "encodeURIComponent slug = Inr e"
    using encodeURIComponent_well_formed by (auto simp: slug_well_formed_def)
  with GetExtension show ?thesis
    by (auto simp: getExtension_def request_None_options)
next
  case ListCategories
  then show ?thesis by (auto simp: listCategories_def request_None_options)
next
  case (GetDownloadUrl slug version)
  moreover assume "slug_well_formed op"
  ultimately obtain e where "encodeURIComponent slug = Inr e"
    using encodeURIComponent_well_formed by (auto simp: slug_well_formed_def)
  with GetDownloadUrl show ?thesis
    by (auto simp: getDownloadUrl_def)
next
  case (ListVersions slug)
  moreover assume "slug_well_formed op"
  ultimately obtain e where "encodeURIComponent slug = Inr e"
    using encodeURIComponent_well_formed by (auto simp: slug_well_formed_def)
  with ListVersions show ?thesis
    by (auto simp: listVersions_def request_None_options)
next
  case (ListReviews slug ps)
  moreover assume "slug_well_formed op"
  ultimately obtain e where "encodeURIComponent slug = Inr e"
    using encodeURIComponent_well_formed by (auto simp: slug_well_formed_def)
  with ListReviews show ?thesis
    by (auto simp: listReviews_def)
next
  case Health
  then show ?thesis by (auto simp: health_def request_None_options)
qed

section \<open>Properties of the response handling\<close>

lemma Get_error_field: "body \<noteq> JNull \<Longrightarrow> Get_error body = Inr (error_field body)"
  by (cases body) (simp_all add: error_field_def)

lemma response_result_ok: "ok response \<Longrightarrow> response_result response = json response"
  by (simp add: response_result_def)

lemma response_result_undecodable:
  "\<not> ok response \<Longrightarrow> json response = Inl e \<Longrightarrow>
   response_result response =
     Inl (MarketplaceApiError (js ''HTTP '' @ Number_toString (status response)) (status response))"
  by (simp add: response_result_def new_MarketplaceApiError_def js_def)

lemma response_result_message:
  "\<not> ok response \<Longrightarrow> json response = Inr body \<Longrightarrow> body \<noteq> JNull \<Longrightarrow>
   error_field body = Some (JStr m) \<Longrightarrow> m \<noteq> [] \<Longrightarrow>
   response_result response = Inl (MarketplaceApiError m (status response))"
  by (simp add: response_result_def new_MarketplaceApiError_def Get_error_field)

lemma response_result_fallback:
  "\<not> ok response \<Longrightarrow> json response = Inr body \<Longrightarrow> body \<noteq> JNull \<Longrightarrow>
   error_field body = None \<or> (\<exists>x. error_field body = Some x \<and> \<not> ToBoolean x) \<Longrightarrow>
   response_result response =
     Inl (MarketplaceApiError (js ''HTTP '' @ Number_toString (status response)) (status response))"
  by (auto simp: response_result_def new_MarketplaceApiError_def Get_error_field)

lemma response_result_null:
  "\<not> ok response \<Longrightarrow> json response = Inr JNull \<Longrightarrow> response_result response = Inl TypeError"
  by (simp add: response_result_def)

lemma request_stub_result:
  assumes "fetchFn this = Some t" and "\<forall>url init. t url init = Inr response"
  shows "fst (request this endpoint options w) = response_result response"
  using assms by (simp add: request_transport)

lemma perform_stub_result:
  assumes "fetchFn this = Some t" and "\<forall>url init. t url init = Inr response"
    and "slug_well_formed op"
  shows "fst (perform this op w) = response_result response"
proof -
  from perform_request [OF assms(3)] obtain endpoint ps
    where "perform this op w = request this endpoint (only_params ps) w" by blast
  then show ?thesis using request_stub_result [OF assms(1,2)] by simp
qed

lemma urlencoded_version: "urlencoded_string (ToUSVString (js ''version'')) = js ''version''"
  by (simp add: js_def urlencoded_string_def urlencoded_octet_def utf8_octets_def
      urlencoded_unescaped_def is_leading_surrogate_def is_trailing_surrogate_def)

lemma urlencoded_1_2_3: "urlencoded_string (ToUSVString (js ''1.2.3'')) = js ''1.2.3''"
  by (simp add: js_def urlencoded_string_def urlencoded_octet_def utf8_octets_def
      urlencoded_unescaped_def is_leading_surrogate_def is_trailing_surrogate_def)

lemma encodeURIComponent_foo: "encodeURIComponent (js ''foo'') = Inr (js ''foo'')"
  by (simp add: encodeURIComponent_def uriUnreserved_def js_def)

section \<open>Properties of the constructed URLs\<close>

lemma default_client_fields [simp]:
  "baseUrl (default_client t) = DEFAULT_BASE_URL"
  "platform (default_client t) = None"
  "appVersion (default_client t) = None"
  "fetchFn (default_client t) = Some t"
  by (simp_all add: default_client_def new_MarketplaceClient_def)

lemma linux_client_fields [simp]:
  "baseUrl (linux_client t) = DEFAULT_BASE_URL"
  "platform (linux_client t) = Some (js ''linux'')"
  "appVersion (linux_client t) = Some (js ''2.0.0'')"
  "fetchFn (linux_client t) = Some t"
  by (simp_all add: linux_client_def new_MarketplaceClient_def)

lemma stub_apply [simp]: "stub response url init = Inr response"
  by (simp add: stub_def)


lemma sent_url_only_params:
  "sent_url this endpoint (only_params ps)
     = baseUrl this @ endpoint @ spec_query_suffix (map_option Object_entries ps)"
  by (simp add: sent_url_def only_params_def request_url_spec)

lemma version_query:
  "v \<noteq> [] \<Longrightarrow>
   spec_query_suffix (Some [(js ''version'', PString v)])
     = js ''?version='' @ urlencoded_string (ToUSVString v)"
  by (simp add: spec_query_suffix_def spec_query_string_def spec_pair_def urlencoded_version)
     (simp add: js_def)

lemma getDownloadUrl_urls:
  assumes "fetchFn this = Some t" and "encodeURIComponent slug = Inr e"
  shows "map fst (new_calls w (snd (getDownloadUrl this slug version w))) =
           [baseUrl this @ js ''/extensions/'' @ e @ js ''/download''
            @ (case version of
                 None \<Rightarrow> []
               | Some v \<Rightarrow>
                   if v \<noteq> [] then js ''?version='' @ urlencoded_string (ToUSVString v)
                   else [])]"
proof (cases "\<exists>v. version = Some v \<and> v \<noteq> []")
  case True
  then obtain v where v: "version = Some v" "v \<noteq> []" by blast
  with assms show ?thesis
    by (simp add: getDownloadUrl_def request_new_calls sent_url_only_params version_query
        Object_entries_version)
next
  case False
  then have "(case version of None \<Rightarrow> None
              | Some v \<Rightarrow> if v \<noteq> [] then Some [(js ''version'', PString v)] else None) = None"
    by (cases version) auto
  moreover from False have "(case version of None \<Rightarrow> []
              | Some v \<Rightarrow> if v \<noteq> [] then js ''?version='' @ urlencoded_string (ToUSVString v)
                  else []) = []"
    by (cases version) auto
  ultimately show ?thesis using assms
    by (simp add: getDownloadUrl_def request_new_calls sent_url_only_params
        spec_query_suffix_def)
qed


lemma split_on_absent: "d \<notin> set xs \<Longrightarrow> split_on d xs = [xs]"
  by (induction xs) auto

lemma split_on_first: "d \<notin> set xs \<Longrightarrow> split_on d (xs @ d # ys) = xs # split_on d ys"
  by (induction xs) auto

lemma spec_query_suffix_head:
  "spec_query_suffix ps = [] \<or> (\<exists>q. spec_query_suffix ps = 0x3F # q)"
  by (cases ps) (auto simp: spec_query_suffix_def js_def)

lemma url_path_with_query:
  assumes "0x3F \<notin> set path" and "0x23 \<notin> set path"
  shows "url_path (path @ spec_query_suffix ps) = path"
proof -
  have all: "\<forall>c \<in> set path. c \<noteq> 0x3F \<and> c \<noteq> 0x23" using assms by auto
  from spec_query_suffix_head [of ps] show ?thesis
  proof
    assume "spec_query_suffix ps = []"
    with all show ?thesis by (simp add: url_path_def)
  next
    assume "\<exists>q. spec_query_suffix ps = 0x3F # q"
    then obtain q where "spec_query_suffix ps = 0x3F # q" ..
    with all show ?thesis by (simp add: url_path_def takeWhile_tail)
  qed
qed

lemma slug_path_segments:
  assumes "0x2F \<notin> set e"
  shows "path_segments (js ''/extensions/'' @ e) = [[], js ''extensions'', e]"
    and "path_segments (js ''/extensions/'' @ e @ js ''/download'')
           = [[], js ''extensions'', e, js ''download'']"
    and "path_segments (js ''/extensions/'' @ e @ js ''/versions'')
           = [[], js ''extensions'', e, js ''versions'']"
    and "path_segments (js ''/extensions/'' @ e @ js ''/reviews'')
           = [[], js ''extensions'', e, js ''reviews'']"
proof -
  have prefix: "js ''/extensions/'' @ rest = [] @ 0x2F # js ''extensions'' @ 0x2F # rest" for rest
    by (simp add: js_def)
  have ext: "0x2F \<notin> set (js ''extensions'')" by (simp add: js_def)
  have two: "path_segments (js ''/extensions/'' @ rest)
               = [] # js ''extensions'' # split_on 0x2F rest" for rest
    unfolding path_segments_def prefix
    by (simp only: split_on_first [OF ext] split_on.simps append_Nil if_True refl)
  have last: "split_on 0x2F (e @ js ''/'' @ word) = [e, word]" if "0x2F \<notin> set word" for word
  proof -
    have "e @ js ''/'' @ word = e @ 0x2F # word" by (simp add: js_def)
    then show ?thesis using assms that by (simp add: split_on_first split_on_absent)
  qed
  have suffix: "js ''/download'' = js ''/'' @ js ''download''"
    "js ''/versions'' = js ''/'' @ js ''versions''"
    "js ''/reviews'' = js ''/'' @ js ''reviews''"
    by (simp_all add: js_def)
  have words: "0x2F \<notin> set (js ''download'')" "0x2F \<notin> set (js ''versions'')"
    "0x2F \<notin> set (js ''reviews'')"
    by (simp_all add: js_def)
  show "path_segments (js ''/extensions/'' @ e) = [[], js ''extensions'', e]"
    using assms by (simp add: two split_on_absent)
  show "path_segments (js ''/extensions/'' @ e @ js ''/download'')
           = [[], js ''extensions'', e, js ''download'']"
    by (simp only: two suffix append_assoc last [OF words(1)])
  show "path_segments (js ''/extensions/'' @ e @ js ''/versions'')
           = [[], js ''extensions'', e, js ''versions'']"
    by (simp only: two suffix append_assoc last [OF words(2)])
  show "path_segments (js ''/extensions/'' @ e @ js ''/reviews'')
           = [[], js ''extensions'', e, js ''reviews'']"
    by (simp only: two suffix append_assoc last [OF words(3)])
qed


lemma perform_urls:
  assumes "fetchFn this = Some t" and "encodeURIComponent slug = Inr e"
  shows "map fst (new_calls w (snd (getExtension this slug w)))
           = [baseUrl this @ (js ''/extensions/'' @ e) @ spec_query_suffix None]"
    and "map fst (new_calls w (snd (getDownloadUrl this slug version w)))
           = [baseUrl this @ (js ''/extensions/'' @ e @ js ''/download'')
              @ spec_query_suffix
                  (case version of
                     None \<Rightarrow> None
                   | Some v \<Rightarrow> if v \<noteq> [] then Some [(js ''version'', PString v)] else None)]"
    and "map fst (new_calls w (snd (listVersions this slug w)))
           = [baseUrl this @ (js ''/extensions/'' @ e @ js ''/versions'') @ spec_query_suffix None]"
    and "map fst (new_calls w (snd (listReviews this slug ps w)))
           = [baseUrl this @ (js ''/extensions/'' @ e @ js ''/reviews'')
              @ spec_query_suffix (map_option Object_entries ps)]"
proof -
  have version: "map_option Object_entries
                   (case version of
                      None \<Rightarrow> None
                    | Some v \<Rightarrow> if v \<noteq> [] then Some [(js ''version'', PString v)] else None)
                 = (case version of
                      None \<Rightarrow> None
                    | Some v \<Rightarrow> if v \<noteq> [] then Some [(js ''version'', PString v)] else None)"
    by (cases version) (simp_all add: Object_entries_version)
  show "map fst (new_calls w (snd (getExtension this slug w)))
           = [baseUrl this @ (js ''/extensions/'' @ e) @ spec_query_suffix None]"
    and "map fst (new_calls w (snd (getDownloadUrl this slug version w)))
           = [baseUrl this @ (js ''/extensions/'' @ e @ js ''/download'')
              @ spec_query_suffix
                  (case version of
                     None \<Rightarrow> None
                   | Some v \<Rightarrow> if v \<noteq> [] then Some [(js ''version'', PString v)] else None)]"
    and "map fst (new_calls w (snd (listVersions this slug w)))
           = [baseUrl this @ (js ''/extensions/'' @ e @ js ''/versions'') @ spec_query_suffix None]"
    and "map fst (new_calls w (snd (listReviews this slug ps w)))
           = [baseUrl this @ (js ''/extensions/'' @ e @ js ''/reviews'')
              @ spec_query_suffix (map_option Object_entries ps)]"
    using assms
    by (simp_all add: getExtension_def getDownloadUrl_def listVersions_def listReviews_def
        request_None_options request_new_calls sent_url_only_params version)
qed

lemma js_distinct_headers: "js ''X-Platform'' \<noteq> js ''X-App-Version''"
  by (simp add: js_def)

lemma request_headers_platform:
  assumes "platform this = Some p" and "p \<noteq> []"
  shows "request_headers this given (js ''X-Platform'') = Some p"
  using assms js_distinct_headers
  by (cases "appVersion this") (simp_all add: request_headers_def Let_def)

lemma request_headers_appVersion:
  assumes "appVersion this = Some v" and "v \<noteq> []"
  shows "request_headers this given (js ''X-App-Version'') = Some v"
  using assms
  by (cases "platform this") (simp_all add: request_headers_def Let_def)

lemma header_values_request:
  "header_values name w (snd (request this endpoint options w)) =
     (case fetchFn this of
        None \<Rightarrow> []
      | Some t \<Rightarrow>
          [request_headers this
             (case options of None \<Rightarrow> None | Some opts \<Rightarrow> caller_headers opts) name])"
  by (cases "fetchFn this") (simp_all add: header_values_def request_new_calls sent_init_def)

lemma urlencoded_unescaped_plain:
  "b \<in> set urlencoded_unescaped \<Longrightarrow>
   (of_nat (unat b) :: code_unit)
     \<in> set (js ''ABCDEFGHIJKLMNOPQRSTUVWXYZabcdefghijklmnopqrstuvwxyz0123456789*-._'')"
  by (auto simp: urlencoded_unescaped_def js_def)

lemma urlencoded_octet_alphabet: "set (urlencoded_octet b) \<subseteq> urlencoded_alphabet"
proof (cases "b = 0x20")
  case True
  then show ?thesis by (simp add: urlencoded_octet_def urlencoded_alphabet_def js_def)
next
  case False
  note not_space = this
  show ?thesis
  proof (cases "b \<in> set urlencoded_unescaped")
    case True
    have "urlencoded_octet b = [of_nat (unat b)]"
      using not_space True by (simp add: urlencoded_octet_def)
    with urlencoded_unescaped_plain [OF True] show ?thesis
      by (simp add: urlencoded_alphabet_def)
  next
    case False
    with not_space percent_encode_octet_alphabet [of b] show ?thesis
      by (auto simp: urlencoded_octet_def urlencoded_alphabet_def)
  qed
qed

lemma urlencoded_string_alphabet: "set (urlencoded_string s) \<subseteq> urlencoded_alphabet"
  using urlencoded_octet_alphabet by (auto simp: urlencoded_string_def)

lemma urlencoded_alphabet_no_separator:
  "0x26 \<notin> urlencoded_alphabet" "0x3D \<notin> urlencoded_alphabet"
  "0x3F \<notin> urlencoded_alphabet" "0x23 \<notin> urlencoded_alphabet"
  by (simp_all add: urlencoded_alphabet_def percent_alphabet_def hex_digits_def js_def)

lemma urlencoded_string_no_separator:
  "0x26 \<notin> set (urlencoded_string s)" "0x3D \<notin> set (urlencoded_string s)"
  "0x3F \<notin> set (urlencoded_string s)" "0x23 \<notin> set (urlencoded_string s)"
  using urlencoded_string_alphabet [of s] urlencoded_alphabet_no_separator by blast+

section \<open>The claims\<close>

text \<open>
  Claim C1, as the code has it. The transport is fixed when the client is constructed:
  the option \<^verbatim>\<open>fetch\<close> if given, else the ambient \<^verbatim>\<open>globalThis.fetch\<close> as it is at
  that moment. Construction never fails. A client constructed without a transport in an
  environment without one fails every request with a \<^verbatim>\<open>TypeError\<close> and invokes
  nothing; and what \<^verbatim>\<open>globalThis.fetch\<close> is when the request is made has no influence
  on the request.
\<close>

theorem transport_resolved_at_construction:
  "fetchFn (new_MarketplaceClient options w0)
     = (case (case options of None \<Rightarrow> None | Some opts \<Rightarrow> opt_fetch opts) of
          None \<Rightarrow> globalThis_fetch w0
        | Some f \<Rightarrow> Some f)
   \<and> ((case options of None \<Rightarrow> None | Some opts \<Rightarrow> opt_fetch opts) = None
        \<and> globalThis_fetch w0 = None
      \<longrightarrow> request (new_MarketplaceClient options w0) endpoint ro w = (Inl TypeError, w)
          \<and> (slug_well_formed op
               \<longrightarrow> perform (new_MarketplaceClient options w0) op w = (Inl TypeError, w)))
   \<and> request (new_MarketplaceClient options w0) endpoint ro (w\<lparr>globalThis_fetch := g\<rparr>)
       = (fst (request (new_MarketplaceClient options w0) endpoint ro w),
          (snd (request (new_MarketplaceClient options w0) endpoint ro w))\<lparr>globalThis_fetch := g\<rparr>)"
proof -
  let ?c = "new_MarketplaceClient options w0"
  have resolve: "fetchFn ?c
     = (case (case options of None \<Rightarrow> None | Some opts \<Rightarrow> opt_fetch opts) of
          None \<Rightarrow> globalThis_fetch w0
        | Some f \<Rightarrow> Some f)"
    by (cases options) (simp_all add: new_MarketplaceClient_def)
  have fails: "request ?c endpoint ro w = (Inl TypeError, w)"
    if "(case options of None \<Rightarrow> None | Some opts \<Rightarrow> opt_fetch opts) = None"
      and "globalThis_fetch w0 = None"
    for endpoint ro
    using that resolve by (simp add: request_no_transport)
  have fails_op: "perform ?c op w = (Inl TypeError, w)"
    if "(case options of None \<Rightarrow> None | Some opts \<Rightarrow> opt_fetch opts) = None"
      and "globalThis_fetch w0 = None" and "slug_well_formed op"
  proof -
    from perform_request [OF that(3)] obtain endpoint ps
      where "perform ?c op w = request ?c endpoint (only_params ps) w" by blast
    with fails [OF that(1,2)] show ?thesis by simp
  qed
  have indep: "request ?c endpoint ro (w\<lparr>globalThis_fetch := g\<rparr>)
       = (fst (request ?c endpoint ro w), (snd (request ?c endpoint ro w))\<lparr>globalThis_fetch := g\<rparr>)"
    by (cases "fetchFn ?c") (simp_all add: request_no_transport request_transport)
  show ?thesis
    apply (intro conjI impI)
    subgoal by (rule resolve)
    subgoal by (rule fails) simp_all
    subgoal by (rule fails_op) simp_all
    subgoal by (rule indep)
    done
qed

text \<open>
  A client constructed with no options where there is no ambient \<^verbatim>\<open>fetch\<close>: its
  request fails although a \<^verbatim>\<open>fetch\<close> is there when the request is made.
\<close>

theorem transport_resolved_at_construction_witness:
  "request (new_MarketplaceClient None no_fetch) (js ''/health'') None
     (no_fetch\<lparr>globalThis_fetch := Some (stub \<lparr>ok = True, status = Decimal False 200 3, json = Inr (JObj [])\<rparr>)\<rparr>)
   = (Inl TypeError,
      no_fetch\<lparr>globalThis_fetch := Some (stub \<lparr>ok = True, status = Decimal False 200 3, json = Inr (JObj [])\<rparr>)\<rparr>)"
  using transport_resolved_at_construction
    [of None no_fetch "js ''/health''" None
        "no_fetch\<lparr>globalThis_fetch := Some (stub \<lparr>ok = True, status = Decimal False 200 3, json = Inr (JObj [])\<rparr>)\<rparr>",
     THEN conjunct2, THEN conjunct1]
  by (simp add: no_fetch_def)

text \<open>
  The claim as stated fails: the ambient capability is not resolved when the request is
  attempted. The client below is constructed with no transport where there is no ambient
  \<^verbatim>\<open>fetch\<close>; when \<^verbatim>\<open>health()\<close> is called the environment has one, which would answer
  with status 200, yet the call rejects with \<^verbatim>\<open>TypeError\<close> and the ambient
  \<^verbatim>\<open>fetch\<close> is never invoked.
\<close>

theorem call_time_resolution_counterexample:
  "globalThis_fetch
      (no_fetch\<lparr>globalThis_fetch := Some (stub \<lparr>ok = True, status = Decimal False 200 3, json = Inr (JObj [])\<rparr>)\<rparr>)
     = Some (stub \<lparr>ok = True, status = Decimal False 200 3, json = Inr (JObj [])\<rparr>)
   \<and> fst (health (new_MarketplaceClient None no_fetch)
           (no_fetch\<lparr>globalThis_fetch := Some (stub \<lparr>ok = True, status = Decimal False 200 3, json = Inr (JObj [])\<rparr>)\<rparr>))
       = Inl TypeError
   \<and> calls (snd (health (new_MarketplaceClient None no_fetch)
           (no_fetch\<lparr>globalThis_fetch := Some (stub \<lparr>ok = True, status = Decimal False 200 3, json = Inr (JObj [])\<rparr>)\<rparr>)))
       = []"
  by (simp add: health_def new_MarketplaceClient_def no_fetch_def request_no_transport)

text \<open>
  Claim C2, as the code has it. For a client with a transport: when the configured
  platform is a non-empty string, every request carries the header \<^verbatim>\<open>X-Platform\<close>
  with that value, whatever headers the caller of \<open>request\<close> supplied, the two identity
  headers included; likewise the application version and \<^verbatim>\<open>X-App-Version\<close>. This is
  stated for \<open>request\<close> with any endpoint and options and for every public operation that
  reaches the transport.
\<close>

theorem configured_identity_headers:
  assumes "fetchFn this = Some t"
  shows "(platform this = Some p \<and> p \<noteq> []
            \<longrightarrow> header_values (js ''X-Platform'') w (snd (request this endpoint options w)) = [Some p]
              \<and> (slug_well_formed op
                   \<longrightarrow> header_values (js ''X-Platform'') w (snd (perform this op w)) = [Some p]))
       \<and> (appVersion this = Some v \<and> v \<noteq> []
            \<longrightarrow> header_values (js ''X-App-Version'') w (snd (request this endpoint options w)) = [Some v]
              \<and> (slug_well_formed op
                   \<longrightarrow> header_values (js ''X-App-Version'') w (snd (perform this op w)) = [Some v]))"
proof -
  have req_p: "header_values (js ''X-Platform'') w (snd (request this e ro w)) = [Some p]"
    if "platform this = Some p" "p \<noteq> []" for e ro
    using assms request_headers_platform [OF that] by (simp add: header_values_request)
  have req_v: "header_values (js ''X-App-Version'') w (snd (request this e ro w)) = [Some v]"
    if "appVersion this = Some v" "v \<noteq> []" for e ro
    using assms request_headers_appVersion [OF that] by (simp add: header_values_request)
  have op_p: "header_values (js ''X-Platform'') w (snd (perform this op w)) = [Some p]"
    if "platform this = Some p" "p \<noteq> []" "slug_well_formed op"
  proof -
    from perform_request [OF that(3)] obtain e ps
      where "perform this op w = request this e (only_params ps) w" by blast
    with req_p [OF that(1,2)] show ?thesis by simp
  qed
  have op_v: "header_values (js ''X-App-Version'') w (snd (perform this op w)) = [Some v]"
    if "appVersion this = Some v" "v \<noteq> []" "slug_well_formed op"
  proof -
    from perform_request [OF that(3)] obtain e ps
      where "perform this op w = request this e (only_params ps) w" by blast
    with req_v [OF that(1,2)] show ?thesis by simp
  qed
  from req_p req_v op_p op_v show ?thesis by blast
qed

text \<open>
  The example of the specification: platform \<^verbatim>\<open>linux\<close> and version \<^verbatim>\<open>2.0.0\<close>; a
  request whose caller tries to override both headers, and the operation
  \<^verbatim>\<open>listCategories()\<close>.
\<close>

theorem configured_identity_headers_witness:
  "header_values (js ''X-Platform'') no_fetch
     (snd (request (linux_client (stub \<lparr>ok = True, status = Decimal False 200 3, json = Inr (JObj [])\<rparr>))
             (js ''/health'')
             (Some \<lparr>params = None,
                    caller_headers = Some [js ''X-Platform'' \<mapsto> js ''bsd'',
                                           js ''X-App-Version'' \<mapsto> js ''0.0.1''],
                    caller_members = []\<rparr>)
             no_fetch))
     = [Some (js ''linux'')]
   \<and> header_values (js ''X-App-Version'') no_fetch
     (snd (request (linux_client (stub \<lparr>ok = True, status = Decimal False 200 3, json = Inr (JObj [])\<rparr>))
             (js ''/health'')
             (Some \<lparr>params = None,
                    caller_headers = Some [js ''X-Platform'' \<mapsto> js ''bsd'',
                                           js ''X-App-Version'' \<mapsto> js ''0.0.1''],
                    caller_members = []\<rparr>)
             no_fetch))
     = [Some (js ''2.0.0'')]
   \<and> header_values (js ''X-Platform'') no_fetch
     (snd (listCategories (linux_client (stub \<lparr>ok = True, status = Decimal False 200 3, json = Inr (JObj [])\<rparr>))
             no_fetch))
     = [Some (js ''linux'')]
   \<and> header_values (js ''X-App-Version'') no_fetch
     (snd (listCategories (linux_client (stub \<lparr>ok = True, status = Decimal False 200 3, json = Inr (JObj [])\<rparr>))
             no_fetch))
     = [Some (js ''2.0.0'')]"
proof -
  let ?t = "stub \<lparr>ok = True, status = Decimal False 200 3, json = Inr (JObj [])\<rparr>"
  have t: "fetchFn (linux_client ?t) = Some ?t" by simp
  have ne: "js ''linux'' \<noteq> []" "js ''2.0.0'' \<noteq> []" by (simp_all add: js_def)
  have wf: "slug_well_formed ListCategories" by (simp add: slug_well_formed_def)
  show ?thesis
    using configured_identity_headers
      [OF t, of "js ''linux''" no_fetch "js ''/health''" _ ListCategories "js ''2.0.0''"]
      ne wf
    by simp
qed

text \<open>
  The claim as stated fails for the empty string: a client configured with the platform
  \<^verbatim>\<open>""\<close> and the version \<^verbatim>\<open>""\<close> sends neither header with \<^verbatim>\<open>health()\<close>, and a
  caller's \<^verbatim>\<open>X-Platform: bsd\<close> is not overwritten back to the configured value.
\<close>

theorem empty_identity_counterexample:
  "header_values (js ''X-Platform'') no_fetch
     (snd (health
        (new_MarketplaceClient
           (Some \<lparr>opt_baseUrl = None, opt_platform = Some [], opt_appVersion = Some [],
                  opt_fetch = Some (stub \<lparr>ok = True, status = Decimal False 200 3, json = Inr (JObj [])\<rparr>)\<rparr>)
           no_fetch)
        no_fetch))
     = [None]
   \<and> header_values (js ''X-App-Version'') no_fetch
     (snd (health
        (new_MarketplaceClient
           (Some \<lparr>opt_baseUrl = None, opt_platform = Some [], opt_appVersion = Some [],
                  opt_fetch = Some (stub \<lparr>ok = True, status = Decimal False 200 3, json = Inr (JObj [])\<rparr>)\<rparr>)
           no_fetch)
        no_fetch))
     = [None]
   \<and> header_values (js ''X-Platform'') no_fetch
     (snd (request
        (new_MarketplaceClient
           (Some \<lparr>opt_baseUrl = None, opt_platform = Some [], opt_appVersion = Some [],
                  opt_fetch = Some (stub \<lparr>ok = True, status = Decimal False 200 3, json = Inr (JObj [])\<rparr>)\<rparr>)
           no_fetch)
        (js ''/health'')
        (Some \<lparr>params = None, caller_headers = Some [js ''X-Platform'' \<mapsto> js ''bsd''],
               caller_members = []\<rparr>)
        no_fetch))
     = [Some (js ''bsd'')]"
  by (simp add: health_def header_values_request new_MarketplaceClient_def
      request_headers_def js_def)

text \<open>
  Claim C3, as the code has it. The transport answers with a response of non-success
  status. Then the call (\<open>request\<close>, or a public operation that reaches the transport)
  rejects with an API error whose status code is the status of the response, and whose
  message is
  \<^item> \<^verbatim>\<open>HTTP <status>\<close> when the body does not decode;
  \<^item> the \<^verbatim>\<open>error\<close> field of the body when the body decodes to a value other than
    \<^verbatim>\<open>null\<close> and that field is a non-empty string;
  \<^item> \<^verbatim>\<open>HTTP <status>\<close> when the body decodes to a value other than \<^verbatim>\<open>null\<close> and
    the field is absent or falsy.
\<close>

theorem api_error_of_response:
  assumes "fetchFn this = Some t" and "\<forall>url init. t url init = Inr response"
    and "\<not> ok response"
    and "result = fst (request this endpoint options w)
         \<or> (slug_well_formed op \<and> result = fst (perform this op w))"
  shows "(\<forall>e. json response = Inl e
            \<longrightarrow> result = Inl (MarketplaceApiError
                               (js ''HTTP '' @ Number_toString (status response))
                               (status response)))
       \<and> (\<forall>body m. json response = Inr body \<and> body \<noteq> JNull
                     \<and> error_field body = Some (JStr m) \<and> m \<noteq> []
            \<longrightarrow> result = Inl (MarketplaceApiError m (status response)))
       \<and> (\<forall>body. json response = Inr body \<and> body \<noteq> JNull
                   \<and> (error_field body = None
                        \<or> (\<exists>x. error_field body = Some x \<and> \<not> ToBoolean x))
            \<longrightarrow> result = Inl (MarketplaceApiError
                               (js ''HTTP '' @ Number_toString (status response))
                               (status response)))"
proof -
  have result: "result = response_result response"
    using assms(4) request_stub_result [OF assms(1,2)] perform_stub_result [OF assms(1,2)]
    by auto
  show ?thesis
    unfolding result
    using response_result_undecodable [OF assms(3)] response_result_message [OF assms(3)]
      response_result_fallback [OF assms(3)]
    by blast
qed

text \<open>
  The examples of the specification: \<^verbatim>\<open>getExtension("missing")\<close> on status 404 with
  the body \<^verbatim>\<open>{"error":"not found"}\<close>, and on status 500 with a body that does not
  decode.
\<close>

theorem api_error_of_response_witness:
  "fst (getExtension
          (default_client
             (stub \<lparr>ok = False, status = Decimal False 404 3,
                    json = Inr (JObj [(js ''error'', JStr (js ''not found''))])\<rparr>))
          (js ''missing'') no_fetch)
     = Inl (MarketplaceApiError (js ''not found'') (Decimal False 404 3))
   \<and> fst (getExtension
          (default_client (stub \<lparr>ok = False, status = Decimal False 500 3, json = Inl (Foreign 0)\<rparr>))
          (js ''missing'') no_fetch)
     = Inl (MarketplaceApiError (js ''HTTP 500'') (Decimal False 500 3))"
proof -
  let ?r404 = "\<lparr>ok = False, status = Decimal False 404 3,
                 json = Inr (JObj [(js ''error'', JStr (js ''not found''))])\<rparr>"
  let ?r500 = "\<lparr>ok = False, status = Decimal False 500 3, json = Inl (Foreign 0)\<rparr>"
  have wf: "slug_well_formed (GetExtension (js ''missing''))"
    by (simp add: slug_well_formed_def js_def is_leading_surrogate_def
        is_trailing_surrogate_def)
  have field: "error_field (JObj [(js ''error'', JStr (js ''not found''))])
                 = Some (JStr (js ''not found''))"
    by (simp add: error_field_def)
  have ne: "js ''not found'' \<noteq> []" by (simp add: js_def)
  have http: "js ''HTTP '' @ Number_toString (Decimal False 500 3) = js ''HTTP 500''"
    by (simp add: Number_toString_def strip_zeros.simps
        decimal_digits.simps js_def numeral_2_eq_2)
  have a: "fst (getExtension (default_client (stub ?r404)) (js ''missing'') no_fetch)
             = Inl (MarketplaceApiError (js ''not found'') (Decimal False 404 3))"
    using api_error_of_response
      [of "default_client (stub ?r404)" "stub ?r404" ?r404
          "fst (perform (default_client (stub ?r404)) (GetExtension (js ''missing'')) no_fetch)"
          "js ''/health''" None no_fetch "GetExtension (js ''missing'')"]
      wf field ne
    by simp
  have b: "fst (getExtension (default_client (stub ?r500)) (js ''missing'') no_fetch)
             = Inl (MarketplaceApiError (js ''HTTP 500'') (Decimal False 500 3))"
    using api_error_of_response
      [of "default_client (stub ?r500)" "stub ?r500" ?r500
          "fst (perform (default_client (stub ?r500)) (GetExtension (js ''missing'')) no_fetch)"
          "js ''/health''" None no_fetch "GetExtension (js ''missing'')"]
      wf http
    by simp
  from a b show ?thesis by simp
qed

text \<open>
  The claim as stated fails where the body decodes but its \<^verbatim>\<open>error\<close> field is falsy:
  on status 404 with the body \<^verbatim>\<open>{"error":""}\<close> the message is not the field (the empty
  string) but \<^verbatim>\<open>HTTP 404\<close>.
\<close>

theorem empty_error_field_counterexample:
  "error_field (JObj [(js ''error'', JStr [])]) = Some (JStr [])
   \<and> fst (getExtension
            (default_client
               (stub \<lparr>ok = False, status = Decimal False 404 3, json = Inr (JObj [(js ''error'', JStr [])])\<rparr>))
            (js ''missing'') no_fetch)
       = Inl (MarketplaceApiError (js ''HTTP 404'') (Decimal False 404 3))
   \<and> js ''HTTP 404'' \<noteq> []"
proof -
  have enc: "encodeURIComponent (js ''missing'') = Inr (js ''missing'')"
    by (simp add: encodeURIComponent_def uriUnreserved_def js_def)
  have http: "js ''HTTP '' @ Number_toString (Decimal False 404 3) = js ''HTTP 404''"
    by (simp add: Number_toString_def strip_zeros.simps
        decimal_digits.simps js_def numeral_2_eq_2)
  have field: "error_field (JObj [(js ''error'', JStr [])]) = Some (JStr [])"
    by (simp add: error_field_def)
  have "response_result \<lparr>ok = False, status = Decimal False 404 3, json = Inr (JObj [(js ''error'', JStr [])])\<rparr>
          = Inl (MarketplaceApiError (js ''HTTP 404'') (Decimal False 404 3))"
    using response_result_fallback
      [of "\<lparr>ok = False, status = Decimal False 404 3, json = Inr (JObj [(js ''error'', JStr [])])\<rparr>"
          "JObj [(js ''error'', JStr [])]"] field http
    by simp
  then show ?thesis
    using field by (simp add: getExtension_def enc request_transport) (simp add: js_def)
qed

text \<open>
  Claim C4, as the code has it. \<open>request\<close> is called with the query parameters \<open>obj\<close>
  (the properties of the mapping in the order of their insertion) on a client with a
  transport. The loop runs over \<^verbatim>\<open>Object.entries\<close> of the mapping. Let \<open>defined\<close> be
  the entries among these whose value is not \<^verbatim>\<open>undefined\<close>, in that order. Then the URL
  handed to the transport is the base URL, the endpoint and, only if \<open>defined\<close> is not
  empty, \<^verbatim>\<open>?\<close> followed by the pairs \<^verbatim>\<open>key=value\<close> of \<open>defined\<close> joined by \<^verbatim>\<open>&\<close>, key
  and value form-urlencoded, a number printed as \<^verbatim>\<open>String\<close> prints it. The joined
  string is empty exactly when \<open>defined\<close> is, and no encoded key or value contains
  \<^verbatim>\<open>&\<close> or \<^verbatim>\<open>=\<close>. Every number (\<^verbatim>\<open>0\<close> and \<^verbatim>\<open>NaN\<close> included) and every string
  (the empty one included) is a defined value. The order of \<^verbatim>\<open>Object.entries\<close> is:
  first the entries whose key is an array index, in ascending order of the index, then
  the other entries in the order of insertion; it has the same entries as the mapping,
  and it is the order of insertion when no key is an array index.
\<close>

theorem undefined_params_omitted:
  assumes "fetchFn this = Some t" and "params opts = Some obj"
  defines "defined \<equiv> filter (\<lambda>(key, val). val \<noteq> PUndefined) (Object_entries obj)"
  defines "pair \<equiv> (\<lambda>(key, val).
             urlencoded_string (ToUSVString key) @ js ''=''
               @ urlencoded_string (ToUSVString (String_value val)))"
  shows "map fst (new_calls w (snd (request this endpoint (Some opts) w)))
           = [baseUrl this @ endpoint
              @ (if defined = [] then [] else js ''?'' @ join (js ''&'') (map pair defined))]
       \<and> (join (js ''&'') (map pair defined) = [] \<longleftrightarrow> defined = [])
       \<and> (PNumber x \<noteq> PUndefined \<and> PString str \<noteq> PUndefined)
       \<and> String_value (PNumber x) = Number_toString x \<and> String_value (PString str) = str
       \<and> 0x26 \<notin> set (urlencoded_string s) \<and> 0x3D \<notin> set (urlencoded_string s)
       \<and> (\<exists>indexed.
             Object_entries obj
               = map snd indexed @ filter (\<lambda>(key, val). array_index key = None) obj
             \<and> sorted (map fst indexed)
             \<and> (\<forall>(i, key, val) \<in> set indexed.
                   array_index key = Some i \<and> (key, val) \<in> set obj))
       \<and> set (Object_entries obj) = set obj
       \<and> ((\<forall>(key, val) \<in> set obj. array_index key = None) \<longrightarrow> Object_entries obj = obj)"
proof -
  have pair: "pair = spec_pair" by (simp add: pair_def spec_pair_def)
  have qs: "join (js ''&'') (map pair defined) = spec_query_string (Object_entries obj)"
    by (simp add: pair defined_def spec_query_string_def)
  have empty: "spec_query_string (Object_entries obj) = [] \<longleftrightarrow> defined = []"
    by (auto simp: spec_query_string_empty defined_def filter_empty_conv)
  have url: "map fst (new_calls w (snd (request this endpoint (Some opts) w)))
          = [baseUrl this @ endpoint
             @ (if defined = [] then [] else js ''?'' @ join (js ''&'') (map pair defined))]"
    using assms(1,2) empty
    by (simp add: request_new_calls sent_url_def request_url_spec qs spec_query_suffix_def)
  have order: "\<exists>indexed.
             Object_entries obj
               = map snd indexed @ filter (\<lambda>(key, val). array_index key = None) obj
             \<and> sorted (map fst indexed)
             \<and> (\<forall>(i, key, val) \<in> set indexed.
                   array_index key = Some i \<and> (key, val) \<in> set obj)"
    by (rule exI [of _ "sort_key fst (indexed_properties obj)"])
       (auto simp: Object_entries_def indexed_properties_iff)
  have same: "(\<forall>(key, val) \<in> set obj. array_index key = None) \<longrightarrow> Object_entries obj = obj"
    using Object_entries_no_index [of obj] by blast
  show ?thesis
    apply (intro conjI)
    subgoal by (rule url)
    subgoal using empty by (simp add: qs)
    subgoal by simp
    subgoal by simp
    subgoal by simp
    subgoal by simp
    subgoal by (rule urlencoded_string_no_separator)
    subgoal by (rule urlencoded_string_no_separator)
    subgoal by (rule order)
    subgoal by (rule set_Object_entries)
    subgoal by (rule same)
    done
qed

text \<open>
  \<^verbatim>\<open>listExtensions({page: 2, limit: 0, search: "", category: undefined})\<close> on a client
  of the default host: the falsy values are sent, the undefined one is not, and the
  numbers are printed as they are. In \<^verbatim>\<open>listExtensions({page: NaN, limit: 1e21})\<close> the
  numbers are printed as \<^verbatim>\<open>NaN\<close> and \<^verbatim>\<open>1e+21\<close>.
\<close>

theorem undefined_params_omitted_witness:
  "map fst (new_calls no_fetch
     (snd (listExtensions
             (default_client
                (stub \<lparr>ok = True, status = Decimal False 200 3, json = Inr example_page\<rparr>))
             (Some [(js ''page'', PNumber (Decimal False 2 1)),
                    (js ''limit'', PNumber (Zero False)),
                    (js ''search'', PString []),
                    (js ''category'', PUndefined)])
             no_fetch)))
   = [js ''https://marketplace.haex.space/extensions?page=2&limit=0&search='']
   \<and> map fst (new_calls no_fetch
     (snd (listExtensions
             (default_client
                (stub \<lparr>ok = True, status = Decimal False 200 3, json = Inr example_page\<rparr>))
             (Some [(js ''page'', PNumber NaN), (js ''limit'', PNumber (Decimal False 1 22))])
             no_fetch)))
   = [js ''https://marketplace.haex.space/extensions?page=NaN&limit=1e%2B21'']"
proof -
  let ?t = "stub \<lparr>ok = True, status = Decimal False 200 3, json = Inr example_page\<rparr>"
  let ?obj = "[(js ''page'', PNumber (Decimal False 2 1)),
               (js ''limit'', PNumber (Zero False)),
               (js ''search'', PString []),
               (js ''category'', PUndefined)]"
  let ?obj' = "[(js ''page'', PNumber NaN), (js ''limit'', PNumber (Decimal False 1 22))]"
  let ?opts = "\<lparr>params = Some ?obj, caller_headers = None, caller_members = []\<rparr>"
  let ?opts' = "\<lparr>params = Some ?obj', caller_headers = None, caller_members = []\<rparr>"
  have t: "fetchFn (default_client ?t) = Some ?t" by simp
  have keys: "array_index (js ''page'') = None" "array_index (js ''limit'') = None"
    "array_index (js ''search'') = None" "array_index (js ''category'') = None"
    by (simp_all add: array_index_def digit_value_def js_def)
  have entries: "Object_entries ?obj = ?obj" "Object_entries ?obj' = ?obj'"
    by (rule Object_entries_no_index, simp add: keys)+
  have numbers: "Number_toString (Decimal False 2 1) = js ''2''"
    "Number_toString (Zero False) = js ''0''"
    "Number_toString NaN = js ''NaN''"
    "Number_toString (Decimal False 1 22) = js ''1e+21''"
    "Number_toString (Decimal False (Suc 0) 22) = js ''1e+21''"
    by (simp_all add: Number_toString_def strip_zeros.simps
        decimal_digits.simps js_def)
  have enc: "urlencoded_string (ToUSVString (js ''page'')) = js ''page''"
    "urlencoded_string (ToUSVString (js ''limit'')) = js ''limit''"
    "urlencoded_string (ToUSVString (js ''search'')) = js ''search''"
    "urlencoded_string (ToUSVString (js ''2'')) = js ''2''"
    "urlencoded_string (ToUSVString (js ''0'')) = js ''0''"
    "urlencoded_string (ToUSVString (js ''NaN'')) = js ''NaN''"
    "urlencoded_string (ToUSVString (js ''1e+21'')) = js ''1e%2B21''"
    "urlencoded_string [] = []"
    by (simp_all add: js_def urlencoded_string_def urlencoded_octet_def utf8_octets_def
        urlencoded_unescaped_def is_leading_surrogate_def is_trailing_surrogate_def
        percent_encode_octet_def hex_digits_def)
  have p: "params ?opts = Some ?obj" and p': "params ?opts' = Some ?obj'" by simp_all
  have a: "map fst (new_calls no_fetch
             (snd (listExtensions (default_client ?t) (Some ?obj) no_fetch)))
           = [js ''https://marketplace.haex.space/extensions?page=2&limit=0&search='']"
    unfolding listExtensions_def only_params_def
      undefined_params_omitted [OF t p, of no_fetch "js ''/extensions''", THEN conjunct1]
      entries
    by (simp add: numbers enc DEFAULT_BASE_URL_def) (simp add: js_def)
  have b: "map fst (new_calls no_fetch
             (snd (listExtensions (default_client ?t) (Some ?obj') no_fetch)))
           = [js ''https://marketplace.haex.space/extensions?page=NaN&limit=1e%2B21'']"
    unfolding listExtensions_def only_params_def
      undefined_params_omitted [OF t p', of no_fetch "js ''/extensions''", THEN conjunct1]
      entries
    by (simp add: numbers enc DEFAULT_BASE_URL_def) (simp add: js_def)
  from a b show ?thesis by simp
qed

text \<open>
  The claim as stated fails for keys that are array indices: the mapping with the keys
  \<^verbatim>\<open>b\<close>, \<^verbatim>\<open>2\<close>, \<^verbatim>\<open>a\<close>, \<^verbatim>\<open>1\<close>, inserted in this order, is sent as
  \<^verbatim>\<open>1=w&2=y&b=x&a=z\<close>, which is not the order of insertion.
\<close>

theorem index_keys_first_counterexample:
  "map fst (new_calls no_fetch
     (snd (listExtensions
             (default_client
                (stub \<lparr>ok = True, status = Decimal False 200 3, json = Inr example_page\<rparr>))
             (Some [(js ''b'', PString (js ''x'')), (js ''2'', PString (js ''y'')),
                    (js ''a'', PString (js ''z'')), (js ''1'', PString (js ''w''))])
             no_fetch)))
   = [js ''https://marketplace.haex.space/extensions?1=w&2=y&b=x&a=z'']
   \<and> js ''https://marketplace.haex.space/extensions?1=w&2=y&b=x&a=z''
       \<noteq> js ''https://marketplace.haex.space/extensions?b=x&2=y&a=z&1=w''"
proof -
  let ?t = "stub \<lparr>ok = True, status = Decimal False 200 3, json = Inr example_page\<rparr>"
  let ?obj = "[(js ''b'', PString (js ''x'')), (js ''2'', PString (js ''y'')),
               (js ''a'', PString (js ''z'')), (js ''1'', PString (js ''w''))]"
  have keys: "array_index (js ''b'') = None" "array_index (js ''2'') = Some 2"
    "array_index (js ''a'') = None" "array_index (js ''1'') = Some 1"
    by (simp_all add: array_index_def digit_value_def decimal_digits.simps js_def)
  have entries: "Object_entries ?obj
                   = [(js ''1'', PString (js ''w'')), (js ''2'', PString (js ''y'')),
                      (js ''b'', PString (js ''x'')), (js ''a'', PString (js ''z''))]"
    by (simp add: Object_entries_def keys)
  have enc: "urlencoded_string (ToUSVString (js ''b'')) = js ''b''"
    "urlencoded_string (ToUSVString (js ''a'')) = js ''a''"
    "urlencoded_string (ToUSVString (js ''1'')) = js ''1''"
    "urlencoded_string (ToUSVString (js ''2'')) = js ''2''"
    "urlencoded_string (ToUSVString (js ''x'')) = js ''x''"
    "urlencoded_string (ToUSVString (js ''y'')) = js ''y''"
    "urlencoded_string (ToUSVString (js ''z'')) = js ''z''"
    "urlencoded_string (ToUSVString (js ''w'')) = js ''w''"
    by (simp_all add: js_def urlencoded_string_def urlencoded_octet_def utf8_octets_def
        urlencoded_unescaped_def is_leading_surrogate_def is_trailing_surrogate_def)
  have "map fst (new_calls no_fetch
          (snd (listExtensions (default_client ?t) (Some ?obj) no_fetch)))
        = [js ''https://marketplace.haex.space/extensions?1=w&2=y&b=x&a=z'']"
    by (simp add: listExtensions_def request_new_calls sent_url_only_params entries
        spec_query_suffix_def spec_query_string_def spec_pair_def enc DEFAULT_BASE_URL_def)
       (simp add: js_def)
  moreover have "js ''https://marketplace.haex.space/extensions?1=w&2=y&b=x&a=z''
       \<noteq> js ''https://marketplace.haex.space/extensions?b=x&2=y&a=z&1=w''"
    by (simp add: js_def)
  ultimately show ?thesis by simp
qed

text \<open>
  Claim C5, as the code has it. For every well-formed slug (no unpaired surrogate),
  \<^verbatim>\<open>encodeURIComponent\<close> gives an encoded slug \<open>e\<close> without \<^verbatim>\<open>/\<close>, \<^verbatim>\<open>?\<close> or
  \<^verbatim>\<open>#\<close>; each of the four operations on a client with a transport hands the transport
  the base URL followed by a target whose path has the segments \<^verbatim>\<open>extensions\<close>, \<open>e\<close>
  and the name of the resource, so the slug fills one segment, whatever characters it
  has. (For a slug that is not well-formed see the counterexample.)
\<close>

theorem slug_is_one_path_segment:
  assumes "isWellFormed slug" and "fetchFn this = Some t"
  shows "\<exists>e. encodeURIComponent slug = Inr e
           \<and> 0x2F \<notin> set e \<and> 0x3F \<notin> set e \<and> 0x23 \<notin> set e
           \<and> (\<exists>target. map fst (new_calls w (snd (getExtension this slug w)))
                            = [baseUrl this @ target]
                  \<and> path_segments (url_path target) = [[], js ''extensions'', e])
           \<and> (\<exists>target. map fst (new_calls w (snd (getDownloadUrl this slug version w)))
                            = [baseUrl this @ target]
                  \<and> path_segments (url_path target)
                      = [[], js ''extensions'', e, js ''download''])
           \<and> (\<exists>target. map fst (new_calls w (snd (listVersions this slug w)))
                            = [baseUrl this @ target]
                  \<and> path_segments (url_path target)
                      = [[], js ''extensions'', e, js ''versions''])
           \<and> (\<exists>target. map fst (new_calls w (snd (listReviews this slug ps w)))
                            = [baseUrl this @ target]
                  \<and> path_segments (url_path target)
                      = [[], js ''extensions'', e, js ''reviews''])"
proof -
  from encodeURIComponent_well_formed [OF assms(1)]
  obtain e where e: "encodeURIComponent slug = Inr e" ..
  note clean = encodeURIComponent_no_delimiter [OF e]
  note urls = perform_urls [OF assms(2) e, of w]
  note segs = slug_path_segments [OF clean(1)]
  have path: "url_path ((js ''/extensions/'' @ e @ word) @ spec_query_suffix q)
                = js ''/extensions/'' @ e @ word"
    if "0x3F \<notin> set word" "0x23 \<notin> set word" for word q
    using that clean(2,3) by (intro url_path_with_query) (simp_all add: js_def)
  have words: "0x3F \<notin> set (js ''/download'')" "0x23 \<notin> set (js ''/download'')"
    "0x3F \<notin> set (js ''/versions'')" "0x23 \<notin> set (js ''/versions'')"
    "0x3F \<notin> set (js ''/reviews'')" "0x23 \<notin> set (js ''/reviews'')"
    by (simp_all add: js_def)
  have target: "\<exists>target. urls = [baseUrl this @ target]
                    \<and> path_segments (url_path target) = segments"
    if "urls = [baseUrl this @ (js ''/extensions/'' @ e @ word) @ spec_query_suffix q]"
      and "url_path ((js ''/extensions/'' @ e @ word) @ spec_query_suffix q)
             = js ''/extensions/'' @ e @ word"
      and "path_segments (js ''/extensions/'' @ e @ word) = segments"
    for urls word q segments
    using that by (intro exI [of _ "(js ''/extensions/'' @ e @ word) @ spec_query_suffix q"]) simp
  have a: "\<exists>target. map fst (new_calls w (snd (getExtension this slug w)))
                            = [baseUrl this @ target]
                  \<and> path_segments (url_path target) = [[], js ''extensions'', e]"
    using target [of _ "[]" None] urls(1) path [of "[]" None] segs(1) by simp
  have b: "\<exists>target. map fst (new_calls w (snd (getDownloadUrl this slug version w)))
                            = [baseUrl this @ target]
                  \<and> path_segments (url_path target)
                      = [[], js ''extensions'', e, js ''download'']"
    by (rule target [OF urls(2) path [OF words(1,2)] segs(2)])
  have c: "\<exists>target. map fst (new_calls w (snd (listVersions this slug w)))
                            = [baseUrl this @ target]
                  \<and> path_segments (url_path target)
                      = [[], js ''extensions'', e, js ''versions'']"
    by (rule target [OF urls(3) path [OF words(3,4)] segs(3)])
  have d: "\<exists>target. map fst (new_calls w (snd (listReviews this slug ps w)))
                            = [baseUrl this @ target]
                  \<and> path_segments (url_path target)
                      = [[], js ''extensions'', e, js ''reviews'']"
    by (rule target [OF urls(4) path [OF words(5,6)] segs(4)])
  show ?thesis
    apply (rule exI [of _ e])
    apply (intro conjI)
    apply (rule e)
    apply (rule clean)+
    apply (rule a)
    apply (rule b)
    apply (rule c)
    apply (rule d)
    done
qed

text \<open>
  The slug \<^verbatim>\<open>a/b?c#d\<close>: it is sent as \<^verbatim>\<open>a%2Fb%3Fc%23d\<close>, one segment of the path.
\<close>

theorem slug_is_one_path_segment_witness:
  "encodeURIComponent (js ''a/b?c#d'') = Inr (js ''a%2Fb%3Fc%23d'')
   \<and> map fst (new_calls no_fetch
         (snd (getExtension
                 (default_client (stub \<lparr>ok = True, status = Decimal False 200 3, json = Inr (JObj [])\<rparr>))
                 (js ''a/b?c#d'') no_fetch)))
       = [js ''https://marketplace.haex.space/extensions/a%2Fb%3Fc%23d'']
   \<and> path_segments (url_path (js ''/extensions/a%2Fb%3Fc%23d''))
       = [[], js ''extensions'', js ''a%2Fb%3Fc%23d'']"
proof -
  let ?t = "stub \<lparr>ok = True, status = Decimal False 200 3, json = Inr (JObj [])\<rparr>"
  have wf: "isWellFormed (js ''a/b?c#d'')"
    by (simp add: js_def is_leading_surrogate_def is_trailing_surrogate_def)
  have t: "fetchFn (default_client ?t) = Some ?t" by simp
  have enc: "encodeURIComponent (js ''a/b?c#d'') = Inr (js ''a%2Fb%3Fc%23d'')"
    by (simp add: encodeURIComponent_def uriUnreserved_def js_def is_leading_surrogate_def
        is_trailing_surrogate_def utf8_octets_def percent_encode_octet_def hex_digits_def)
  from slug_is_one_path_segment [OF wf t, of no_fetch None None]
  obtain e where e: "encodeURIComponent (js ''a/b?c#d'') = Inr e"
    and ex: "\<exists>target. map fst (new_calls no_fetch
                (snd (getExtension (default_client ?t) (js ''a/b?c#d'') no_fetch)))
              = [baseUrl (default_client ?t) @ target]
            \<and> path_segments (url_path target) = [[], js ''extensions'', e]"
    by auto
  from ex obtain target where
    url: "map fst (new_calls no_fetch
                (snd (getExtension (default_client ?t) (js ''a/b?c#d'') no_fetch)))
              = [baseUrl (default_client ?t) @ target]"
    and segs: "path_segments (url_path target) = [[], js ''extensions'', e]"
    by auto
  from e enc have e': "e = js ''a%2Fb%3Fc%23d''" by simp
  have "map fst (new_calls no_fetch
          (snd (getExtension (default_client ?t) (js ''a/b?c#d'') no_fetch)))
        = [baseUrl (default_client ?t) @ js ''/extensions/a%2Fb%3Fc%23d'']"
    by (simp add: getExtension_def enc request_new_calls sent_url_def request_url_def)
       (simp add: js_def)
  with url have target: "target = js ''/extensions/a%2Fb%3Fc%23d''" by simp
  have full: "baseUrl (default_client ?t) @ js ''/extensions/a%2Fb%3Fc%23d''
                = js ''https://marketplace.haex.space/extensions/a%2Fb%3Fc%23d''"
    by (simp add: DEFAULT_BASE_URL_def js_def)
  from enc url segs show ?thesis unfolding target e' full by simp
qed

text \<open>
  The claim as stated fails for a slug that is not well-formed: for the slug consisting
  of the lone surrogate U+D800, \<^verbatim>\<open>encodeURIComponent\<close> raises, \<^verbatim>\<open>getExtension\<close>
  rejects with \<^verbatim>\<open>URIError\<close>, and no request URL is constructed.
\<close>

theorem lone_surrogate_slug_counterexample:
  "encodeURIComponent [0xD800] = Inl URIError
   \<and> getExtension
        (default_client (stub \<lparr>ok = True, status = Decimal False 200 3, json = Inr (JObj [])\<rparr>))
        [0xD800] no_fetch
       = (Inl URIError, no_fetch)"
proof -
  have "encodeURIComponent [0xD800] = Inl URIError"
    by (simp add: encodeURIComponent_def uriUnreserved_def js_def is_leading_surrogate_def
        is_trailing_surrogate_def)
  then show ?thesis by (simp add: getExtension_def)
qed

text \<open>
  Claim C6. \<^verbatim>\<open>getDownloadUrl(slug)\<close> without a version hands the transport the URL of
  the download path with nothing after it: no query string, so no \<^verbatim>\<open>version\<close>
  parameter; \<^verbatim>\<open>getDownloadUrl(slug, "1.2.3")\<close> hands it the same URL followed by
  \<^verbatim>\<open>?version=1.2.3\<close>. This holds for every client with a transport and every slug
  that \<^verbatim>\<open>encodeURIComponent\<close> accepts, \<open>e\<close> being the encoded slug.
\<close>

theorem download_url_version:
  assumes "fetchFn this = Some t" and "encodeURIComponent slug = Inr e"
  shows "map fst (new_calls w (snd (getDownloadUrl this slug None w)))
           = [baseUrl this @ js ''/extensions/'' @ e @ js ''/download'']
       \<and> 0x3F \<notin> set (js ''/extensions/'' @ e @ js ''/download'')
       \<and> map fst (new_calls w (snd (getDownloadUrl this slug (Some (js ''1.2.3'')) w)))
           = [baseUrl this @ js ''/extensions/'' @ e @ js ''/download?version=1.2.3'']"
proof -
  have "0x3F \<notin> set e" using assms(2) by (rule encodeURIComponent_no_delimiter)
  then have "0x3F \<notin> set (js ''/extensions/'' @ e @ js ''/download'')"
    by (simp add: js_def)
  moreover have "js ''1.2.3'' \<noteq> []" by (simp add: js_def)
  moreover have "js ''/download'' @ js ''?version='' @ js ''1.2.3''
                   = js ''/download?version=1.2.3''"
    by (simp add: js_def)
  ultimately show ?thesis
    using getDownloadUrl_urls [OF assms, of w None]
      getDownloadUrl_urls [OF assms, of w "Some (js ''1.2.3'')"]
    by (simp add: urlencoded_1_2_3)
qed

text \<open>
  The example of the specification: the slug \<^verbatim>\<open>foo\<close> on a client of the default host.
\<close>

theorem download_url_version_witness:
  "map fst (new_calls no_fetch
       (snd (getDownloadUrl (default_client (stub \<lparr>ok = True, status = Decimal False 200 3, json = Inr (JObj [])\<rparr>))
               (js ''foo'') None no_fetch)))
     = [js ''https://marketplace.haex.space/extensions/foo/download'']
   \<and> map fst (new_calls no_fetch
       (snd (getDownloadUrl (default_client (stub \<lparr>ok = True, status = Decimal False 200 3, json = Inr (JObj [])\<rparr>))
               (js ''foo'') (Some (js ''1.2.3'')) no_fetch)))
     = [js ''https://marketplace.haex.space/extensions/foo/download?version=1.2.3'']"
proof -
  let ?t = "stub \<lparr>ok = True, status = Decimal False 200 3, json = Inr (JObj [])\<rparr>"
  have t: "fetchFn (default_client ?t) = Some ?t" by simp
  show ?thesis
    using download_url_version [OF t encodeURIComponent_foo, of no_fetch]
    by (simp add: DEFAULT_BASE_URL_def js_def)
qed

text \<open>
  Claim C7. When the transport's response has a success status and its body decodes to
  the JSON value \<open>body\<close>, the call returns \<open>body\<close> itself: for \<open>request\<close> with any
  endpoint and options, and for every public operation (whose slug, if it has one, is
  well-formed, so that a request is made at all).
\<close>

theorem success_returns_body:
  assumes "fetchFn this = Some t" and "\<forall>url init. t url init = Inr response"
    and "ok response" and "json response = Inr body"
  shows "fst (request this endpoint options w) = Inr body
       \<and> (slug_well_formed op \<longrightarrow> fst (perform this op w) = Inr body)"
  using assms request_stub_result [OF assms(1,2)] perform_stub_result [OF assms(1,2)]
  by (simp add: response_result_ok)

text \<open>
  The example of the specification: status 200 with the body \<open>example_page\<close>;
  \<^verbatim>\<open>listExtensions()\<close> resolves to that value.
\<close>

theorem success_returns_body_witness:
  "fst (listExtensions
          (default_client (stub \<lparr>ok = True, status = Decimal False 200 3, json = Inr example_page\<rparr>))
          None no_fetch)
   = Inr example_page"
  using success_returns_body
    [of "default_client (stub \<lparr>ok = True, status = Decimal False 200 3, json = Inr example_page\<rparr>)"
        "stub \<lparr>ok = True, status = Decimal False 200 3, json = Inr example_page\<rparr>"
        "\<lparr>ok = True, status = Decimal False 200 3, json = Inr example_page\<rparr>"
        example_page "js ''/extensions''" None no_fetch "ListExtensions None"]
  by (simp add: slug_well_formed_def)

text \<open>
  Claim C8, as the code has it. A call never invokes the transport more than once,
  whatever the transport does: it adds at most one invocation to the log and nothing
  else changes. It invokes the transport exactly once when the client has a transport
  and the slug of the operation, if it has one, is well-formed; it invokes nothing when
  the slug is not well-formed or the client has no transport. \<open>request\<close> itself invokes
  a transport exactly once.
\<close>

theorem at_most_one_invocation:
  "calls (snd (perform this op w)) = calls w @ new_calls w (snd (perform this op w))
   \<and> globalThis_fetch (snd (perform this op w)) = globalThis_fetch w
   \<and> length (new_calls w (snd (perform this op w)))
       = (if fetchFn this \<noteq> None \<and> slug_well_formed op then 1 else 0)
   \<and> length (new_calls w (snd (request this endpoint options w)))
       = (if fetchFn this \<noteq> None then 1 else 0)"
proof -
  have req: "calls (snd (request this e ro w)) = calls w @ new_calls w (snd (request this e ro w))
      \<and> globalThis_fetch (snd (request this e ro w)) = globalThis_fetch w
      \<and> length (new_calls w (snd (request this e ro w))) = (if fetchFn this \<noteq> None then 1 else 0)"
    for e ro
    by (cases "fetchFn this") (simp_all add: request_no_transport request_transport)
  show ?thesis
  proof (cases "slug_well_formed op")
    case True
    from perform_request [OF True] obtain e ps
      where "perform this op w = request this e (only_params ps) w" by blast
    with req [of e "only_params ps"] req [of endpoint options] True show ?thesis by simp
  next
    case False
    with perform_ill_formed [OF False] req [of endpoint options] show ?thesis by simp
  qed
qed

text \<open>
  \<^verbatim>\<open>health()\<close> against a transport that succeeds, one that answers with status 500
  and one that fails: one invocation each.
\<close>

theorem at_most_one_invocation_witness:
  "length (new_calls no_fetch
     (snd (health (default_client (stub \<lparr>ok = True, status = Decimal False 200 3, json = Inr (JObj [])\<rparr>))
             no_fetch))) = 1
   \<and> length (new_calls no_fetch
     (snd (health (default_client (stub \<lparr>ok = False, status = Decimal False 500 3, json = Inl (Foreign 0)\<rparr>))
             no_fetch))) = 1
   \<and> length (new_calls no_fetch
     (snd (health (default_client (\<lambda>url init. Inl (Foreign 1))) no_fetch))) = 1"
  using at_most_one_invocation
      [of "default_client (stub \<lparr>ok = True, status = Decimal False 200 3, json = Inr (JObj [])\<rparr>)"
          Health no_fetch]
    at_most_one_invocation
      [of "default_client (stub \<lparr>ok = False, status = Decimal False 500 3, json = Inl (Foreign 0)\<rparr>)"
          Health no_fetch]
    at_most_one_invocation [of "default_client (\<lambda>url init. Inl (Foreign 1))" Health no_fetch]
  by (simp add: slug_well_formed_def)

text \<open>
  The claim as stated fails: \<^verbatim>\<open>getExtension\<close> with the slug consisting of the lone
  surrogate U+D800, on a client with a transport, does not invoke the transport at all.
\<close>

theorem no_invocation_counterexample:
  "fetchFn (default_client (stub \<lparr>ok = True, status = Decimal False 200 3, json = Inr (JObj [])\<rparr>))
     = Some (stub \<lparr>ok = True, status = Decimal False 200 3, json = Inr (JObj [])\<rparr>)
   \<and> new_calls no_fetch
       (snd (getExtension
               (default_client (stub \<lparr>ok = True, status = Decimal False 200 3, json = Inr (JObj [])\<rparr>))
               [0xD800] no_fetch))
     = []"
proof -
  have "encodeURIComponent [0xD800] = Inl URIError"
    by (simp add: encodeURIComponent_def uriUnreserved_def js_def is_leading_surrogate_def
        is_trailing_surrogate_def)
  then show ?thesis by (simp add: getExtension_def)
qed

text \<open>
  Claim C9. A non-success response whose body decodes to JSON without a usable
  \<^verbatim>\<open>error\<close> field should raise the API error with the message \<^verbatim>\<open>HTTP <status>\<close>.
  For the body \<^verbatim>\<open>null\<close> the code does not: reading \<^verbatim>\<open>errorData.error\<close> raises, and
  the call rejects with a \<^verbatim>\<open>TypeError\<close> instead of an API error. Evaluated here for
  \<^verbatim>\<open>health()\<close> on a response of status 500 with the body \<^verbatim>\<open>null\<close>.
\<close>

theorem null_body_raises_TypeError:
  "error_field JNull = None
   \<and> fst (health (default_client (stub \<lparr>ok = False, status = Decimal False 500 3, json = Inr JNull\<rparr>)) no_fetch)
       = Inl TypeError"
  by (simp add: health_def request_transport response_result_null error_field_def)

text \<open>
  Claim C10. \<^verbatim>\<open>getDownloadUrl(slug, "")\<close> is the call \<^verbatim>\<open>getDownloadUrl(slug)\<close>: the
  same result and the same effect, for every client, slug and world; the URL it hands to
  the transport, when it reaches the transport, ends with the download path and has no
  \<^verbatim>\<open>version\<close> parameter.
\<close>

theorem empty_version_is_no_version:
  "getDownloadUrl this slug (Some []) w = getDownloadUrl this slug None w
   \<and> map fst (new_calls w (snd (getDownloadUrl this slug (Some []) w)))
       = (case fetchFn this of
            None \<Rightarrow> []
          | Some t \<Rightarrow>
              (case encodeURIComponent slug of
                 Inl err \<Rightarrow> []
               | Inr e \<Rightarrow> [baseUrl this @ js ''/extensions/'' @ e @ js ''/download'']))"
proof -
  have same: "getDownloadUrl this slug (Some []) w = getDownloadUrl this slug None w"
    by (simp add: getDownloadUrl_def split: sum.splits)
  have urls: "map fst (new_calls w (snd (getDownloadUrl this slug None w)))
       = (case fetchFn this of
            None \<Rightarrow> []
          | Some t \<Rightarrow>
              (case encodeURIComponent slug of
                 Inl err \<Rightarrow> []
               | Inr e \<Rightarrow> [baseUrl this @ js ''/extensions/'' @ e @ js ''/download'']))"
  proof (cases "fetchFn this")
    case None
    then show ?thesis
      by (simp add: getDownloadUrl_def request_no_transport split: sum.splits)
  next
    case (Some t)
    show ?thesis
    proof (cases "encodeURIComponent slug")
      case (Inl err)
      with Some show ?thesis by (simp add: getDownloadUrl_def)
    next
      case (Inr e)
      with Some getDownloadUrl_urls [OF Some Inr, of w None] show ?thesis by simp
    qed
  qed
  from same urls show ?thesis by simp
qed

end
